theory Spec2Isabelle
  imports Main "HOL-Library.Sublist"
begin

section \<open>Go values used by the watcher\<close>

text \<open>
  A Go \<open>[]byte\<close> is either the nil slice or a sequence of bytes; the code tests
  \<open>lastContent == nil\<close>, so the two are kept apart: \<open>None\<close> is the nil slice. A Go
  string is a sequence of bytes (\<open>string\<close>). \<open>map[string][]string\<close> is a list of pairs,
  \<open>None\<close> when the map is nil. \<open>time.Duration\<close> and \<open>int\<close> are integers; the code does no
  arithmetic on them beyond the loop counter, which never passes \<open>retries\<close>.
\<close>

type_synonym slice = "string option"
type_synonym header = "(string \<times> string list) list option"
type_synonym duration = int

definition bytes_of :: "slice \<Rightarrow> string" where
  "bytes_of b = (case b of None \<Rightarrow> [] | Some xs \<Rightarrow> xs)"

definition len :: "slice \<Rightarrow> nat" where
  "len b = length (bytes_of b)"

text \<open>\<open>bytes.Equal\<close>: same length and same bytes; a nil argument counts as empty.\<close>

definition bytes_Equal :: "slice \<Rightarrow> slice \<Rightarrow> bool" where
  "bytes_Equal a b = (bytes_of a = bytes_of b)"

text \<open>\<open>bytes.Contains(b, sep)\<close>: \<open>sep\<close> occurs in \<open>b\<close> as a contiguous run.\<close>

fun contains :: "string \<Rightarrow> string \<Rightarrow> bool" where
  "contains [] sep = (sep = [])"
| "contains (x # xs) sep = (prefix sep (x # xs) \<or> contains xs sep)"

definition bytes_Contains :: "slice \<Rightarrow> string \<Rightarrow> bool" where
  "bytes_Contains b sep = contains (bytes_of b) sep"

text \<open>
  The arguments of a \<open>fmt.Sprintf\<close>, \<open>fmt.Errorf\<close> or log call are kept next to the format
  string; rendering them to text is the standard library's work.
\<close>

datatype arg = ArgStr string | ArgInt int | ArgDuration duration | ArgBytes slice | ArgHeader header

text \<open>
  Go error values. \<open>InvalidResponseError\<close> is the struct of \<open>internal/http\<close>;
  \<open>UrlError op timeout\<close> is a \<open>*url.Error\<close> with the answer of its \<open>Timeout()\<close>;
  \<open>NetError msg timeout\<close> is an error of the network stack that is no \<open>*url.Error\<close>, such as
  the one a read of the response body ends with, again with the answer of its
  \<open>Timeout()\<close>; \<open>Foreign\<close> is any other error of a library (\<open>ctx.Err()\<close>, an I/O error, a pattern
  syntax error); \<open>Errorf f args\<close> is \<open>fmt.Errorf(f, args...)\<close> with no \<open>%w\<close> in \<open>f\<close>, and
  \<open>Errorf_w f args e\<close> is \<open>fmt.Errorf(f, args..., e)\<close> where \<open>%w\<close> wraps \<open>e\<close>.
\<close>

datatype error =
    InvalidResponseError int header slice
  | UrlError string bool
  | NetError string bool
  | Foreign string
  | Errorf string "arg list"
  | Errorf_w string "arg list" error

text \<open>\<open>errors.As\<close> walks the chain of wrapped errors to the first one of the target type.\<close>

fun As_InvalidResponseError :: "error \<Rightarrow> (int \<times> header \<times> slice) option" where
  "As_InvalidResponseError (InvalidResponseError code hdr body) = Some (code, hdr, body)"
| "As_InvalidResponseError (Errorf_w f args e) = As_InvalidResponseError e"
| "As_InvalidResponseError (Errorf f args) = None"
| "As_InvalidResponseError (UrlError op t) = None"
| "As_InvalidResponseError (NetError m t) = None"
| "As_InvalidResponseError (Foreign m) = None"

fun As_UrlError :: "error \<Rightarrow> bool option" where
  "As_UrlError (UrlError op t) = Some t"
| "As_UrlError (Errorf_w f args e) = As_UrlError e"
| "As_UrlError (Errorf f args) = None"
| "As_UrlError (InvalidResponseError code hdr body) = None"
| "As_UrlError (NetError m t) = None"
| "As_UrlError (Foreign m) = None"

section \<open>internal/config and internal/database, as main.go uses them\<close>

text \<open>
  Modelled from the spec: the configuration entities (\<open>internal/config\<close> is not among the
  sources). A watch is "identifier, target URL, enabled flag, optional extraction pattern,
  ordered list of (pattern, replacement) pairs, set of HTTP status codes to ignore"; the
  field names are the ones \<open>main.go\<close> reads. The pattern of a replacement pair is
  \<open>replace.Pattern\<close> in the source; it is \<open>ReplacePattern\<close> here, since \<open>Pattern\<close> is the
  watch's field.
\<close>

record replace =
  ReplacePattern :: string
  ReplaceWith :: string

record watch =
  Name :: string
  URL :: string
  Disabled :: bool
  Pattern :: string
  Replaces :: "replace list"
  AdditionalHTTPErrorsToIgnore :: "int list"

record configuration =
  Useragent :: string
  Retries :: int
  RetryDelay :: duration
  Timeout :: duration
  HTTPErrorsToIgnore :: "int list"

text \<open>
  Modelled from the spec: the snapshot store (\<open>internal/database\<close> is not among the
  sources), "mapping from resource key (URL) to last-observed content bytes", with
  \<open>get(key) \<rightarrow> content | absent\<close> and \<open>set(key, content)\<close>. \<open>GetDatabaseEntry\<close> returns a
  \<open>[]byte\<close> and \<open>processWatch\<close> reads absence as \<open>lastContent == nil\<close>, so the store is a
  function from keys to slices, nil where there is no content.
\<close>

type_synonym database = "string \<Rightarrow> slice"

definition GetDatabaseEntry :: "database \<Rightarrow> string \<Rightarrow> slice" where
  "GetDatabaseEntry d key = d key"

definition SetDatabaseEntry :: "database \<Rightarrow> string \<Rightarrow> slice \<Rightarrow> database" where
  "SetDatabaseEntry d key content = d(key := content)"

section \<open>Effects\<close>

text \<open>
  Everything the program does to the outside is recorded, oldest first: log lines, fetch
  attempts, waits between attempts and mails handed to the mailer. \<open>HTMLEmail\<close> and \<open>ErrorEmail\<close> stand for the calls of \<open>SendHTMLEmail\<close> and
  \<open>SendErrorEmail\<close>: an event is an attempt, whether or not the mailer then fails.
\<close>

datatype level = Debug | Info | Error

text \<open>
  The HTML content of a mail: the format string and arguments of the text (the source
  rounds the duration and escapes header and body for HTML before rendering them), and
  the stylesheet and markup of the diff when one is included.
\<close>

datatype html = HTML string "arg list" "(string \<times> string) option"

datatype event =
    Log level string "arg list"
  | LogErr error
  | Fetch string int
  | Wait duration
  | WaitAborted
  | HTMLEmail watch string html
  | ErrorEmail watch error

fun is_fetch :: "event \<Rightarrow> bool" where
  "is_fetch (Fetch u i) = True"
| "is_fetch _ = False"

fun is_wait :: "event \<Rightarrow> bool" where
  "is_wait (Wait d) = True"
| "is_wait _ = False"

fun is_mail :: "event \<Rightarrow> bool" where
  "is_mail (HTMLEmail n s h) = True"
| "is_mail (ErrorEmail n e) = True"
| "is_mail _ = False"

fun is_log :: "event \<Rightarrow> bool" where
  "is_log (Log l f args) = True"
| "is_log (LogErr e) = True"
| "is_log _ = False"

section \<open>internal/http: one attempt\<close>

text \<open>
  What the network does with one GET: the request cannot be built, the round trip fails,
  the body cannot be read, or a response arrives (status, header, time taken, body; the
  body read by \<open>io.ReadAll\<close> is never nil).
\<close>

datatype roundtrip =
    NewRequestFails error
  | DoFails error
  | ReadAllFails error
  | Response int header duration string

type_synonym fetch_result = "int \<times> header \<times> duration \<times> slice \<times> error option"

definition isSoftError :: "slice \<Rightarrow> bool" where
  "isSoftError body =
     (if len body = 0 then False
      else if bytes_Contains body ''504 - Gateway Time-out'' \<or>
              bytes_Contains body ''404 - Not Found'' \<or>
              bytes_Contains body ''503 - Service Unavailable'' then True
      else False)"

definition fetchURL :: "roundtrip \<Rightarrow> string \<Rightarrow> fetch_result" where
  "fetchURL rt url =
     (case rt of
        NewRequestFails e \<Rightarrow>
          (-1, None, -1, None, Some (Errorf_w ''could create get request for %s: %w'' [ArgStr url] e))
      | DoFails e \<Rightarrow>
          (-1, None, -1, None, Some (Errorf_w ''could not get %s: %w'' [ArgStr url] e))
      | ReadAllFails e \<Rightarrow>
          (-1, None, -1, None, Some (Errorf_w ''could not read body from %s: %w'' [ArgStr url] e))
      | Response status hdr dur body \<Rightarrow>
          if status \<noteq> 200 \<or> len (Some body) = 0 \<or> isSoftError (Some body)
          then (-1, None, dur, None, Some (InvalidResponseError status hdr (Some body)))
          else (status, hdr, dur, Some body, None))"

section \<open>internal/http: the retry loop\<close>

record client =
  userAgent :: string
  retries :: int
  retryDelay :: duration

text \<open>The timeout goes into Go's \<open>http.Client\<close>: it shows in what the network answers.\<close>

definition NewHTTPClient :: "string \<Rightarrow> int \<Rightarrow> duration \<Rightarrow> duration \<Rightarrow> client" where
  "NewHTTPClient ua n delay timeout = \<lparr>userAgent = ua, retries = n, retryDelay = delay\<rparr>"

text \<open>
  The surroundings of one \<open>GetRequest\<close>: \<open>net url i\<close> is what the network does at try
  \<open>i\<close>, and \<open>ctxDone i\<close> is \<open>Some e\<close> when the context is cancelled while the loop waits
  after try \<open>i\<close> (\<open>e\<close> is \<open>ctx.Err()\<close>), \<open>None\<close> when the delay elapses first.
\<close>

record network =
  net :: "string \<Rightarrow> int \<Rightarrow> roundtrip"
  ctxDone :: "int \<Rightarrow> error option"

fun err_of :: "fetch_result \<Rightarrow> error option" where
  "err_of (statusCode, hdr, dur, body, err) = err"

text \<open>
  The \<open>for\<close> loop of \<open>GetRequest\<close> from try \<open>i\<close> on. \<open>vars\<close> are the five result
  variables as the previous iteration left them. The loop ends by \<open>break\<close> or by its
  condition (\<open>Inr\<close>, with the variables) or by the \<open>return\<close> inside the \<open>select\<close> (\<open>Inl\<close>).
\<close>

function GetRequest_loop ::
  "client \<Rightarrow> network \<Rightarrow> string \<Rightarrow> int \<Rightarrow> fetch_result \<Rightarrow> event list
     \<Rightarrow> (fetch_result + fetch_result) \<times> event list" where
  "GetRequest_loop c w url i vars tr =
     (if i \<le> retries c then
        let tr1 = tr @ [Log Debug ''try #%d for %s'' [ArgInt i, ArgStr url], Fetch url i];
            r = fetchURL (net w url i) url
        in case err_of r of
             None \<Rightarrow> (Inr r, tr1)
           | Some e \<Rightarrow>
               if i = retries c then (Inr r, tr1)
               else if retryDelay c > 0 then
                 let tr2 = tr1 @ [LogErr (Errorf_w ''got error on try #%d for %s, retrying after %s: %w''
                                     [ArgInt i, ArgStr url, ArgDuration (retryDelay c)] e)]
                 in (case ctxDone w i of
                       Some cancelled \<Rightarrow> (Inl (-1, None, -1, None, Some cancelled), tr2 @ [WaitAborted])
                     | None \<Rightarrow> GetRequest_loop c w url (i + 1) r (tr2 @ [Wait (retryDelay c)]))
               else
                 GetRequest_loop c w url (i + 1) r
                   (tr1 @ [LogErr (Errorf_w ''got error on try #%d for %s, retrying: %w''
                                     [ArgInt i, ArgStr url] e)])
      else (Inr vars, tr))"
  by pat_completeness auto
termination
  by (relation "measure (\<lambda>(c, w, url, i, vars, tr). nat (retries c + 1 - i))") auto

declare GetRequest_loop.simps [simp del]

definition GetRequest :: "client \<Rightarrow> network \<Rightarrow> string \<Rightarrow> fetch_result \<times> event list" where
  "GetRequest c w url =
     (case GetRequest_loop c w url 1 (0, None, 0, None, None) [] of
        (Inl ret, tr) \<Rightarrow> (ret, tr)
      | (Inr (statusCode, hdr, requestDuration, body, err), tr) \<Rightarrow>
          (case err of
             Some e \<Rightarrow> ((-1, None, -1, None, Some e), tr)
           | None \<Rightarrow> ((statusCode, hdr, requestDuration, body, None), tr)))"

section \<open>main.go\<close>

text \<open>
  What \<open>processWatch\<close> meets outside the program: the network and the context, Go's
  \<open>regexp\<close> package (\<open>Compile\<close>, \<open>FindSubmatch\<close> with the nil result as \<open>[]\<close>,
  \<open>ReplaceAll\<close>) over compiled patterns of type \<open>'re\<close>, the diff service behind
  \<open>diff.DiffAPI\<close> and the mailer (\<open>None\<close>: the call returned a nil error).
\<close>

record 're outside =
  wire :: network
  Compile :: "string \<Rightarrow> error + 're"
  FindSubmatch :: "'re \<Rightarrow> slice \<Rightarrow> slice list"
  ReplaceAll :: "'re \<Rightarrow> slice \<Rightarrow> string \<Rightarrow> slice"
  DiffAPI :: "string \<Rightarrow> string \<Rightarrow> error + string \<times> string"
  SendHTMLEmail :: "watch \<Rightarrow> string \<Rightarrow> html \<Rightarrow> error option"
  SendErrorEmail :: "watch \<Rightarrow> error \<Rightarrow> error option"

record app =
  config :: configuration
  httpClient :: client
  testMode :: bool

text \<open>The snapshot store behind \<open>app.db\<close> and the effects so far.\<close>

record state =
  db :: database
  trace :: "event list"

text \<open>The part of \<open>run\<close> that builds the application from the configuration (lines 100 to 107).\<close>

definition new_app :: "configuration \<Rightarrow> bool \<Rightarrow> app" where
  "new_app cfg test =
     \<lparr>config = cfg,
      httpClient = NewHTTPClient (Useragent cfg) (Retries cfg) (RetryDelay cfg) (Timeout cfg),
      testMode = test\<rparr>"

definition emit :: "event list \<Rightarrow> state \<Rightarrow> state" where
  "emit evs s = s\<lparr>trace := trace s @ evs\<rparr>"

definition generateHTMLContentForEmail ::
  "'re outside \<Rightarrow> string \<Rightarrow> arg list \<Rightarrow> bool \<Rightarrow> string \<Rightarrow> string \<Rightarrow> error + html" where
  "generateHTMLContentForEmail out f args includeDiff text1 text2 =
     (if includeDiff then
        (case DiffAPI out text1 text2 of
           Inl err \<Rightarrow> Inl err
         | Inr (css, markup) \<Rightarrow> Inr (HTML f args (Some (css, markup))))
      else Inr (HTML f args None))"

text \<open>The \<open>switch\<close> of \<open>processWatch\<close> on the error of \<open>GetRequest\<close> (lines 156 to 195).\<close>

definition on_fetch_error ::
  "'re outside \<Rightarrow> app \<Rightarrow> watch \<Rightarrow> duration \<Rightarrow> error \<Rightarrow> state \<Rightarrow> error option \<times> state" where
  "on_fetch_error out a w requestDuration err s =
     (case As_InvalidResponseError err of
        Some (code, hdr, ibody) \<Rightarrow>
          let s1 = emit [LogErr (Errorf ''invalid response for %s - status: %d, body: %s, duration: %s''
                           [ArgStr (Name w), ArgInt code, ArgBytes ibody, ArgDuration requestDuration])] s
          in if code \<in> set (HTTPErrorsToIgnore (config a)) then (None, s1)
             else if code \<in> set (AdditionalHTTPErrorsToIgnore w) then (None, s1)
             else
               let subject = ''Invalid response for '' @ Name w
               in (case generateHTMLContentForEmail out
                          ''Name: %s\<newline>URL: %s\<newline>Request Duration: %s\<newline>Status: %d\<newline>Bodylen: %d\<newline>Header:\<newline>%s\<newline>Body:\<newline>%s''
                          [ArgStr (Name w), ArgStr (URL w), ArgDuration requestDuration, ArgInt code,
                           ArgInt (int (len ibody)), ArgHeader hdr, ArgBytes ibody]
                          False [] [] of
                     Inl e \<Rightarrow> (Some (Errorf_w ''error on creating htmlcontent: %w'' [] e), s1)
                   | Inr htmlContent \<Rightarrow>
                       let s2 = emit [HTMLEmail w subject htmlContent] s1
                       in (case SendHTMLEmail out w subject htmlContent of
                             Some e \<Rightarrow> (Some (Errorf_w ''error on sending email: %w'' [] e), s2)
                           | None \<Rightarrow> (None, s2)))
      | None \<Rightarrow>
          if As_UrlError err = Some True then (None, s)
          else (Some err, s))"

text \<open>The extraction block of \<open>processWatch\<close> (lines 197 to 208).\<close>

definition extract_content :: "'re outside \<Rightarrow> watch \<Rightarrow> slice \<Rightarrow> error + slice" where
  "extract_content out w body =
     (if Pattern w \<noteq> [] then
        (case Compile out (Pattern w) of
           Inl err \<Rightarrow> Inl (Errorf_w ''could not compile pattern %s: %w'' [ArgStr (Pattern w)] err)
         | Inr re \<Rightarrow>
             let match = FindSubmatch out re body
             in if length match < 2
                then Inl (Errorf ''pattern %s did not match %s'' [ArgStr (Pattern w), ArgBytes body])
                else Inr (match ! 1))
      else Inr body)"

text \<open>The loop over \<open>watch.Replaces\<close> (lines 210 to 218).\<close>

fun replace_loop ::
  "'re outside \<Rightarrow> replace list \<Rightarrow> slice \<Rightarrow> event list \<Rightarrow> (error + slice) \<times> event list" where
  "replace_loop out [] body tr = (Inr body, tr)"
| "replace_loop out (r # rs) body tr =
     (let tr1 = tr @ [Log Debug ''replacing %s'' [ArgStr (ReplacePattern r)]]
      in case Compile out (ReplacePattern r) of
           Inl err \<Rightarrow>
             (Inl (Errorf_w ''could not compile replace pattern %s: %w'' [ArgStr (ReplacePattern r)] err), tr1)
         | Inr re \<Rightarrow>
             let body' = ReplaceAll out re body (ReplaceWith r)
             in replace_loop out rs body'
                  (tr1 @ [Log Debug ''After %s:\<newline>%s\<newline>\<newline>'' [ArgStr (ReplacePattern r), ArgBytes body']]))"

text \<open>The comparison with the snapshot and the update of the store (lines 220 to 248).\<close>

definition compare_and_store ::
  "'re outside \<Rightarrow> app \<Rightarrow> watch \<Rightarrow> slice \<Rightarrow> int \<Rightarrow> duration \<Rightarrow> slice \<Rightarrow> state
     \<Rightarrow> error option \<times> state" where
  "compare_and_store out a w lastContent statusCode requestDuration body s =
     (if lastContent = None then
        let s1 = emit [Log Debug ''new website %s %s detected, not comparing''
                         [ArgStr (Name w), ArgStr (URL w)]] s
        in (None, s1\<lparr>db := SetDatabaseEntry (db s1) (URL w) body\<rparr>)
      else
        let (failed, s1) =
              (if \<not> bytes_Equal lastContent body then
                 if testMode a then
                   (None, emit [Log Debug ''Website %s %s differ! Would send email in prod''
                                  [ArgStr (Name w), ArgStr (URL w)]] s)
                 else
                   let subject = ''Detected change on '' @ Name w;
                       s1 = emit [Log Info subject []] s
                   in (case generateHTMLContentForEmail out
                              ''Name: %s\<newline>URL: %s\<newline>Request Duration: %s\<newline>Status: %d\<newline>Bodylen: %d''
                              [ArgStr (Name w), ArgStr (URL w), ArgDuration requestDuration,
                               ArgInt statusCode, ArgInt (int (len body))]
                              True (bytes_of lastContent) (bytes_of body) of
                         Inl e \<Rightarrow> (Some (Errorf_w ''error on creating htmlcontent: %w'' [] e), s1)
                       | Inr htmlContent \<Rightarrow>
                           let s2 = emit [HTMLEmail w subject htmlContent] s1
                           in (case SendHTMLEmail out w subject htmlContent of
                                 Some e \<Rightarrow> (Some (Errorf_w ''error on sending email: %w'' [] e), s2)
                               | None \<Rightarrow> (None, s2)))
               else (None, s))
        in case failed of
             Some e \<Rightarrow> (Some e, s1)
           | None \<Rightarrow> (None, s1\<lparr>db := SetDatabaseEntry (db s1) (URL w) body\<rparr>))"

text \<open>The rest of \<open>processWatch\<close> once \<open>GetRequest\<close> returned no error (lines 197 to 248).\<close>

definition on_fetch_success ::
  "'re outside \<Rightarrow> app \<Rightarrow> watch \<Rightarrow> slice \<Rightarrow> int \<Rightarrow> duration \<Rightarrow> slice \<Rightarrow> state
     \<Rightarrow> error option \<times> state" where
  "on_fetch_success out a w lastContent statusCode requestDuration body s =
     (case extract_content out w body of
        Inl e \<Rightarrow> (Some e, s)
      | Inr extracted \<Rightarrow>
          (case replace_loop out (Replaces w) extracted [] of
             (Inl e, logs) \<Rightarrow> (Some e, emit logs s)
           | (Inr replaced, logs) \<Rightarrow>
               compare_and_store out a w lastContent statusCode requestDuration replaced
                 (emit logs s)))"

definition processWatch :: "'re outside \<Rightarrow> app \<Rightarrow> watch \<Rightarrow> state \<Rightarrow> error option \<times> state" where
  "processWatch out a w s0 =
     (let s1 = emit [Log Info ''processing %s: %s'' [ArgStr (Name w), ArgStr (URL w)]] s0;
          lastContent = GetDatabaseEntry (db s1) (URL w);
          ((statusCode, hdr, requestDuration, body, err), evs) =
             GetRequest (httpClient a) (wire out) (URL w);
          s2 = emit evs s1
      in case err of
           Some e \<Rightarrow> on_fetch_error out a w requestDuration e s2
         | None \<Rightarrow> on_fetch_success out a w lastContent statusCode requestDuration body s2)"

text \<open>
  The function started with \<open>go\<close> for each enabled watch in \<open>run\<close> (lines 125 to 137): an
  error of \<open>processWatch\<close> is logged and handed to \<open>SendErrorEmail\<close>; an error of the
  mailer is logged.
\<close>

definition run_watch :: "'re outside \<Rightarrow> app \<Rightarrow> watch \<Rightarrow> state \<Rightarrow> state" where
  "run_watch out a w s =
     (case processWatch out a w s of
        (Some err, s1) \<Rightarrow>
          let s2 = emit [LogErr (Errorf_w ''error on %s: %w'' [ArgStr (Name w)] err), ErrorEmail w err] s1
          in (case SendErrorEmail out w err of
                Some err2 \<Rightarrow> emit [LogErr err2] s2
              | None \<Rightarrow> s2)
      | (None, s1) \<Rightarrow> s1)"

section \<open>Notions used to state the properties\<close>

text \<open>Try \<open>i\<close> fails: \<open>fetchURL\<close> returns an error for what the network does then.\<close>

definition fails :: "network \<Rightarrow> string \<Rightarrow> int \<Rightarrow> bool" where
  "fails w url i = (err_of (fetchURL (net w url i) url) \<noteq> None)"

text \<open>
  The attempts of a list of tries with a wait of \<open>d\<close> between consecutive ones and none
  after the last; \<open>schedule c url i k\<close> is what the retry policy prescribes for the tries
  \<open>i\<close> to \<open>k\<close>: waits only when \<open>retryDelay\<close> is positive.
\<close>

fun attempts_with_waits :: "string \<Rightarrow> duration \<Rightarrow> int list \<Rightarrow> event list" where
  "attempts_with_waits url d [] = []"
| "attempts_with_waits url d [i] = [Fetch url i]"
| "attempts_with_waits url d (i # j # js) = Fetch url i # Wait d # attempts_with_waits url d (j # js)"

definition schedule :: "client \<Rightarrow> string \<Rightarrow> int \<Rightarrow> int \<Rightarrow> event list" where
  "schedule c url i k =
     (if retryDelay c > 0 then attempts_with_waits url (retryDelay c) [i..k]
      else map (Fetch url) [i..k])"

text \<open>All tries from 1 to \<open>k\<close> fail; no wait after a try from 1 to \<open>k\<close> is cancelled.\<close>

definition fail_through :: "network \<Rightarrow> string \<Rightarrow> int \<Rightarrow> bool" where
  "fail_through w url k = (\<forall>j \<in> set [1..k]. fails w url j)"

definition uncancelled_through :: "network \<Rightarrow> int \<Rightarrow> bool" where
  "uncancelled_through w k = (\<forall>j \<in> set [1..k]. ctxDone w j = None)"

text \<open>
  An error is a timeout when an error of its chain answers true to \<open>Timeout()\<close>, whatever
  its type.
\<close>

fun timed_out :: "error \<Rightarrow> bool" where
  "timed_out (UrlError op t) = t"
| "timed_out (NetError m t) = t"
| "timed_out (Errorf_w f args e) = timed_out e"
| "timed_out (Errorf f args) = False"
| "timed_out (InvalidResponseError code hdr body) = False"
| "timed_out (Foreign m) = False"

text \<open>The effects of a trace without its log lines, and the mails of a state.\<close>

definition effects :: "event list \<Rightarrow> event list" where
  "effects tr = filter (\<lambda>e. \<not> is_log e) tr"

definition mails :: "state \<Rightarrow> event list" where
  "mails s = filter is_mail (trace s)"

text \<open>
  The content that \<open>processWatch\<close> compares and stores: the fetched body after the
  extraction and the replacements, or the error of one of them.
\<close>

definition transform :: "'re outside \<Rightarrow> watch \<Rightarrow> slice \<Rightarrow> error + slice" where
  "transform out w body =
     (case extract_content out w body of
        Inl e \<Rightarrow> Inl e
      | Inr extracted \<Rightarrow> fst (replace_loop out (Replaces w) extracted []))"

text \<open>
  The replacement pairs applied in their declared order, each by \<open>ReplaceAll\<close>, up to
  the first pattern that does not compile.
\<close>

fun replacements :: "'re outside \<Rightarrow> replace list \<Rightarrow> slice \<Rightarrow> error + slice" where
  "replacements out [] body = Inr body"
| "replacements out (r # rs) body =
     (case Compile out (ReplacePattern r) of
        Inl err \<Rightarrow> Inl (Errorf_w ''could not compile replace pattern %s: %w'' [ArgStr (ReplacePattern r)] err)
      | Inr re \<Rightarrow> replacements out rs (ReplaceAll out re body (ReplaceWith r)))"

text \<open>One replacement pair applied to a body: \<open>ReplaceAll\<close> with the compiled pattern.\<close>

definition substitution :: "'re outside \<Rightarrow> slice \<Rightarrow> replace \<Rightarrow> slice" where
  "substitution out body r =
     (case Compile out (ReplacePattern r) of
        Inr re \<Rightarrow> ReplaceAll out re body (ReplaceWith r)
      | Inl err \<Rightarrow> body)"

section \<open>A fragment of Go's regexp package\<close>

text \<open>
  The \<open>regexp\<close> package belongs to Go's standard library; the properties of
  \<open>processWatch\<close> below hold for any behaviour of it. For concrete runs, this section
  follows the package's documentation on the patterns made of literal ASCII bytes and of
  parenthesised groups of literal ASCII bytes, such as \<open>b\<close> or \<open>v(2)\<close>: none of
  \<open>\ . + * ? ( ) | [ ] { } ^ $\<close> occurs but the parentheses of the groups, groups are not
  nested, and the pattern matches at least one byte. Such a pattern matches exactly the
  occurrences of its bytes without the parentheses, leftmost first, and each group
  matches its own bytes. A pattern outside the fragment does not compile here, also where
  Go compiles it: no concrete run below uses one. Templates are ASCII.
\<close>

datatype piece = Chars string | Group string

type_synonym regexp = "piece list"

text \<open>The bytes with a meaning in the pattern syntax.\<close>

definition is_meta :: "char \<Rightarrow> bool" where
  "is_meta c = (c \<in> set ''.+*?()|[]{}^$'' \<or> c = CHR 0x5C)"

text \<open>
  The bytes that stand for themselves in a pattern of the fragment: ASCII and without a
  meaning in the syntax. Go reads a pattern as UTF-8; on ASCII bytes a character is a
  byte, and no byte of a longer or invalid sequence in the searched text equals one.
\<close>

definition literal_byte :: "char \<Rightarrow> bool" where
  "literal_byte c = (\<not> is_meta c \<and> (of_char c :: nat) < 128)"

text \<open>
  The pieces of a pattern, reading left to right; \<open>acc\<close> holds the bytes of the open
  group, last first. An unclosed group, a closing parenthesis without a group, a
  metacharacter and a byte that is not ASCII give no result.
\<close>

fun parse_pieces :: "bool \<Rightarrow> string \<Rightarrow> string \<Rightarrow> regexp option" where
  "parse_pieces in_group acc [] = (if in_group then None else Some [])"
| "parse_pieces in_group acc (c # cs) =
     (if in_group then
        (if c = CHR '')'' then map_option ((#) (Group (rev acc))) (parse_pieces False [] cs)
         else if \<not> literal_byte c then None
         else parse_pieces True (c # acc) cs)
      else
        (if c = CHR ''('' then parse_pieces True [] cs
         else if \<not> literal_byte c then None
         else map_option ((#) (Chars [c])) (parse_pieces False [] cs)))"

fun piece_text :: "piece \<Rightarrow> string" where
  "piece_text (Chars t) = t"
| "piece_text (Group t) = t"

fun groups :: "regexp \<Rightarrow> string list" where
  "groups [] = []"
| "groups (Chars t # ps) = groups ps"
| "groups (Group t # ps) = t # groups ps"

definition flat :: "regexp \<Rightarrow> string" where
  "flat ps = concat (map piece_text ps)"

definition regexp_Compile :: "string \<Rightarrow> error + regexp" where
  "regexp_Compile p =
     (case parse_pieces False [] p of
        None \<Rightarrow> Inl (Foreign ''error parsing regexp'')
      | Some ps \<Rightarrow> if flat ps = [] then Inl (Foreign ''error parsing regexp'') else Inr ps)"

text \<open>
  \<open>FindSubmatch\<close>: nil (here \<open>[]\<close>) when there is no match, else the text of the leftmost
  match followed by the text of each group.
\<close>

definition regexp_FindSubmatch :: "regexp \<Rightarrow> slice \<Rightarrow> slice list" where
  "regexp_FindSubmatch re b =
     (if contains (bytes_of b) (flat re) then map Some (flat re # groups re) else [])"

text \<open>
  \<open>Expand\<close>: in a template \<open>$name\<close> and \<open>${name}\<close> stand for a submatch, where \<open>name\<close> is
  the longest run of letters, digits and underscores; a purely numeric name without a
  leading zero is the index of a submatch, and a reference to an index out of range or
  to a name that the pattern does not have (the fragment has no named groups) is
  replaced by nothing; \<open>$$\<close> is a dollar sign; a \<open>$\<close> followed by no name stays as it is.
\<close>

definition name_char :: "char \<Rightarrow> bool" where
  "name_char c =
     (let n = (of_char c :: nat)
      in (48 \<le> n \<and> n \<le> 57) \<or> (65 \<le> n \<and> n \<le> 90) \<or> (97 \<le> n \<and> n \<le> 122) \<or> n = 95)"

definition is_digit :: "char \<Rightarrow> bool" where
  "is_digit c = (let n = (of_char c :: nat) in 48 \<le> n \<and> n \<le> 57)"

definition number :: "string \<Rightarrow> int" where
  "number name =
     (if list_all is_digit name \<and> \<not> (hd name = CHR ''0'' \<and> length name > 1)
      then foldl (\<lambda>n c. n * 10 + (int (of_char c) - 48)) 0 name
      else -1)"

definition template_var :: "string \<Rightarrow> (int \<times> string) option" where
  "template_var str =
     (if str = [] then None
      else
        let brace = (hd str = CHR ''{'');
            str1 = (if brace then tl str else str);
            name = takeWhile name_char str1;
            rest = dropWhile name_char str1
        in if name = [] then None
           else if brace then
             (if rest = [] \<or> hd rest \<noteq> CHR ''}'' then None
              else Some (number name, tl rest))
           else Some (number name, rest))"

lemma template_var_shorter: "template_var str = Some (num, rest) \<Longrightarrow> length rest \<le> length str"
proof -
  have dw: "\<And>xs. length (dropWhile name_char xs) \<le> length xs"
    by (simp add: length_dropWhile_le)
  assume a: "template_var str = Some (num, rest)"
  show ?thesis
  proof (cases str)
    case Nil
    with a show ?thesis by (simp add: template_var_def)
  next
    case (Cons c cs)
    show ?thesis
    proof (cases "c = CHR ''{''")
      case True
      with a Cons have "rest = tl (dropWhile name_char cs)"
        by (auto simp: template_var_def Let_def split: if_splits)
      then show ?thesis using dw[of cs] Cons by simp
    next
      case False
      with a Cons have "rest = dropWhile name_char (c # cs)"
        by (auto simp: template_var_def Let_def split: if_splits)
      then show ?thesis using dw[of "c # cs"] Cons by simp
    qed
  qed
qed

definition submatch :: "string list \<Rightarrow> int \<Rightarrow> string" where
  "submatch m num = (if 0 \<le> num \<and> nat num < length m then m ! nat num else [])"

function expand :: "string list \<Rightarrow> string \<Rightarrow> string" where
  "expand m [] = []"
| "expand m (c # t) =
     (if c \<noteq> CHR ''$'' then c # expand m t
      else if t \<noteq> [] \<and> hd t = CHR ''$'' then CHR ''$'' # expand m (tl t)
      else (case template_var t of
              None \<Rightarrow> CHR ''$'' # expand m t
            | Some (num, rest) \<Rightarrow> submatch m num @ expand m rest))"
  by pat_completeness auto
termination
  by (relation "measure (\<lambda>(m, t). length t)") (auto dest: template_var_shorter)

text \<open>
  Every match of the bytes \<open>pat\<close>, leftmost first and without overlap, replaced by
  \<open>repl\<close>.
\<close>

function substitute :: "string \<Rightarrow> string \<Rightarrow> string \<Rightarrow> string" where
  "substitute pat repl [] = []"
| "substitute pat repl (x # xs) =
     (if pat \<noteq> [] \<and> prefix pat (x # xs)
      then repl @ substitute pat repl (drop (length pat) (x # xs))
      else x # substitute pat repl xs)"
  by pat_completeness auto
termination
  by (relation "measure (\<lambda>(pat, repl, s). length s)") (auto simp: neq_Nil_conv)

text \<open>
  \<open>ReplaceAll\<close> expands the template for each match; \<open>ReplaceAllLiteral\<close> inserts the
  replacement as it is. Both build the result by appending to a nil slice, so an empty
  result is nil.
\<close>

definition nil_if_empty :: "string \<Rightarrow> slice" where
  "nil_if_empty out = (if out = [] then None else Some out)"

definition regexp_ReplaceAll :: "regexp \<Rightarrow> slice \<Rightarrow> string \<Rightarrow> slice" where
  "regexp_ReplaceAll re src repl =
     nil_if_empty (substitute (flat re) (expand (flat re # groups re) repl) (bytes_of src))"

definition regexp_ReplaceAllLiteral :: "regexp \<Rightarrow> slice \<Rightarrow> string \<Rightarrow> slice" where
  "regexp_ReplaceAllLiteral re src repl =
     nil_if_empty (substitute (flat re) repl (bytes_of src))"

section \<open>Example surroundings\<close>

text \<open>
  A network that answers every request with the same status and body, one where every
  round trip fails, one where the first try times out and the
  second is answered, and one where every round trip fails and the context is cancelled
  during the wait after the second try.
\<close>

definition serving :: "int \<Rightarrow> string \<Rightarrow> network" where
  "serving status body = \<lparr>net = (\<lambda>url i. Response status None 7 body), ctxDone = (\<lambda>i. None)\<rparr>"

text \<open>A network where every round trip fails with the given error.\<close>

definition failing_with :: "error \<Rightarrow> network" where
  "failing_with e = \<lparr>net = (\<lambda>url i. DoFails e), ctxDone = (\<lambda>i. None)\<rparr>"

text \<open>A network where the response arrives and the read of its body fails with the given error.\<close>

definition body_read_fails :: "error \<Rightarrow> network" where
  "body_read_fails e = \<lparr>net = (\<lambda>url i. ReadAllFails e), ctxDone = (\<lambda>i. None)\<rparr>"

definition dead_network :: network where
  "dead_network = \<lparr>net = (\<lambda>url i. DoFails (UrlError ''Get'' False)), ctxDone = (\<lambda>i. None)\<rparr>"

definition flaky_network :: network where
  "flaky_network =
     \<lparr>net = (\<lambda>url i. if i < 2 then DoFails (UrlError ''Get'' True) else Response 200 None 7 ''v2''),
      ctxDone = (\<lambda>i. None)\<rparr>"

definition cancelled_network :: network where
  "cancelled_network =
     \<lparr>net = (\<lambda>url i. DoFails (UrlError ''Get'' False)),
      ctxDone = (\<lambda>i. if i = 2 then Some (Foreign ''context canceled'') else None)\<rparr>"

text \<open>
  Surroundings with the regexp fragment, a diff service that answers and a mailer that
  accepts every mail.
\<close>

definition working_outside :: "network \<Rightarrow> regexp outside" where
  "working_outside n =
     \<lparr>wire = n, Compile = regexp_Compile, FindSubmatch = regexp_FindSubmatch,
      ReplaceAll = regexp_ReplaceAll,
      DiffAPI = (\<lambda>text1 text2. Inr (''css'', ''diff'')),
      SendHTMLEmail = (\<lambda>w subject content. None),
      SendErrorEmail = (\<lambda>w e. None)\<rparr>"

text \<open>The same surroundings with a mailer that refuses every mail.\<close>

definition refusing_mailer :: "network \<Rightarrow> regexp outside" where
  "refusing_mailer n =
     (working_outside n)
       \<lparr>SendHTMLEmail := (\<lambda>w subject content. Some (Foreign ''smtp: connection refused'')),
        SendErrorEmail := (\<lambda>w e. Some (Foreign ''smtp: connection refused''))\<rparr>"

text \<open>
  A configuration with one try and status 404 ignored, a watch without extraction and
  replacements that ignores status 503, and a store whose only content is that of the
  watch's URL.
\<close>

definition example_config :: configuration where
  "example_config =
     \<lparr>Useragent = ''websitewatcher'', Retries = 1, RetryDelay = 0, Timeout = 0,
      HTTPErrorsToIgnore = [404]\<rparr>"

definition example_watch :: watch where
  "example_watch =
     \<lparr>Name = ''A'', URL = ''https://example.org'', Disabled = False, Pattern = [],
      Replaces = [], AdditionalHTTPErrorsToIgnore = [503]\<rparr>"

definition snapshot :: "slice \<Rightarrow> state" where
  "snapshot content = \<lparr>db = (\<lambda>key. None)(''https://example.org'' := content), trace = []\<rparr>"

text \<open>The example watch with an extraction pattern and replacement pairs.\<close>

definition extracting_watch :: "string \<Rightarrow> replace list \<Rightarrow> watch" where
  "extracting_watch p rs = example_watch\<lparr>Pattern := p, Replaces := rs\<rparr>"

section \<open>Properties of one attempt\<close>

lemma contains_sublist: "contains b sep = sublist sep b"
proof (induction b)
  case Nil
  then show ?case by auto
next
  case (Cons x xs)
  then show ?case by (auto simp: sublist_Cons_right)
qed

text \<open>
  C5. A received response is a hard error exactly when its status is not 200, or its
  body is empty, or its body contains one of the three soft-error signatures; then
  \<open>fetchURL\<close> returns an \<open>InvalidResponseError\<close> with the status code, the headers and the
  body of the response; otherwise it returns the status, the headers, the duration and
  the body, which is not empty, with no error.
\<close>

theorem fetchURL_classifies_response:
  "fetchURL (Response status hdr dur body) url =
     (if status \<noteq> 200 \<or> body = [] \<or> sublist ''504 - Gateway Time-out'' body \<or>
         sublist ''404 - Not Found'' body \<or> sublist ''503 - Service Unavailable'' body
      then (-1, None, dur, None, Some (InvalidResponseError status hdr (Some body)))
      else (status, hdr, dur, Some body, None))"
  by (simp add: fetchURL_def isSoftError_def len_def bytes_of_def bytes_Contains_def
      contains_sublist)

theorem fetchURL_classifies_response_witness:
  "fetchURL (Response 200 None 5 ''ok'') ''u'' = (200, None, 5, Some ''ok'', None) \<and>
   fetchURL (Response 200 None 5 ''x 404 - Not Found'') ''u'' =
     (-1, None, 5, None, Some (InvalidResponseError 200 None (Some ''x 404 - Not Found''))) \<and>
   fetchURL (Response 500 None 5 ''ok'') ''u'' =
     (-1, None, 5, None, Some (InvalidResponseError 500 None (Some ''ok''))) \<and>
   fetchURL (Response 200 None 5 []) ''u'' =
     (-1, None, 5, None, Some (InvalidResponseError 200 None (Some [])))"
  using fetchURL_classifies_response [of 200 None 5 "''ok''" "''u''"]
    fetchURL_classifies_response [of 200 None 5 "''x 404 - Not Found''" "''u''"]
    fetchURL_classifies_response [of 500 None 5 "''ok''" "''u''"]
    fetchURL_classifies_response [of 200 None 5 "[]" "''u''"]
  by (simp add: contains_sublist [symmetric])

section \<open>Properties of the retry loop\<close>

lemma effects_append [simp]: "effects (xs @ ys) = effects xs @ effects ys"
  by (simp add: effects_def)

lemma effects_simps [simp]:
  "effects [] = []"
  "effects (Log l f args # tr) = effects tr"
  "effects (LogErr e # tr) = effects tr"
  "effects (Fetch u i # tr) = Fetch u i # effects tr"
  "effects (Wait d # tr) = Wait d # effects tr"
  "effects (WaitAborted # tr) = WaitAborted # effects tr"
  by (simp_all add: effects_def)

lemma schedule_single: "schedule c url k k = [Fetch url k]"
  by (simp add: schedule_def)

lemma schedule_step:
  assumes "i < k"
  shows "schedule c url i k =
           Fetch url i # (if retryDelay c > 0 then [Wait (retryDelay c)] else []) @ schedule c url (i + 1) k"
proof -
  from assms have a: "[i..k] = i # [i + 1..k]" by (simp add: upto_rec1)
  from assms have b: "[i + 1..k] = (i + 1) # [i + 1 + 1..k]" by (simp add: upto_rec1)
  show ?thesis unfolding schedule_def a by (simp add: b)
qed


lemma loop_break:
  assumes "i \<le> retries c" and "err_of (fetchURL (net w url i) url) = None \<or> i = retries c"
  shows "GetRequest_loop c w url i vars tr =
           (Inr (fetchURL (net w url i) url),
            tr @ [Log Debug ''try #%d for %s'' [ArgInt i, ArgStr url], Fetch url i])"
  using assms by (subst GetRequest_loop.simps) (auto simp: Let_def split: option.splits)

lemma loop_retry:
  assumes "i < retries c" and "err_of (fetchURL (net w url i) url) = Some e"
    and "0 < retryDelay c \<longrightarrow> ctxDone w i = None"
  shows "GetRequest_loop c w url i vars tr =
           GetRequest_loop c w url (i + 1) (fetchURL (net w url i) url)
             (tr @ [Log Debug ''try #%d for %s'' [ArgInt i, ArgStr url], Fetch url i] @
                (if 0 < retryDelay c
                 then [LogErr (Errorf_w ''got error on try #%d for %s, retrying after %s: %w''
                                 [ArgInt i, ArgStr url, ArgDuration (retryDelay c)] e),
                       Wait (retryDelay c)]
                 else [LogErr (Errorf_w ''got error on try #%d for %s, retrying: %w''
                                 [ArgInt i, ArgStr url] e)]))"
  using assms by (subst GetRequest_loop.simps) (simp add: Let_def)

lemma loop_abort:
  assumes "i < retries c" and "err_of (fetchURL (net w url i) url) = Some e"
    and "0 < retryDelay c" and "ctxDone w i = Some cancelled"
  shows "GetRequest_loop c w url i vars tr =
           (Inl (-1, None, -1, None, Some cancelled),
            tr @ [Log Debug ''try #%d for %s'' [ArgInt i, ArgStr url], Fetch url i,
                  LogErr (Errorf_w ''got error on try #%d for %s, retrying after %s: %w''
                            [ArgInt i, ArgStr url, ArgDuration (retryDelay c)] e),
                  WaitAborted])"
  using assms by (subst GetRequest_loop.simps) (simp add: Let_def)

lemma loop_stops_at:
  assumes "i \<le> k" and "k \<le> retries c"
    and "\<forall>j. i \<le> j \<and> j < k \<longrightarrow> fails w url j"
    and "0 < retryDelay c \<longrightarrow> (\<forall>j. i \<le> j \<and> j < k \<longrightarrow> ctxDone w j = None)"
    and "\<not> fails w url k \<or> k = retries c"
  shows "fst (GetRequest_loop c w url i vars tr) = Inr (fetchURL (net w url k) url) \<and>
         effects (snd (GetRequest_loop c w url i vars tr)) = effects tr @ schedule c url i k"
  using assms
proof (induction "nat (k - i)" arbitrary: i vars tr)
  case 0
  then have ik: "i = k" by simp
  have "err_of (fetchURL (net w url k) url) = None \<or> k = retries c"
    using "0.prems"(5) by (auto simp: fails_def)
  then show ?case
    unfolding ik using "0.prems"(2) by (simp add: loop_break schedule_single)
next
  case (Suc n)
  then have lt: "i < k" by linarith
  then have "fails w url i" using Suc.prems by simp
  then obtain e where e: "err_of (fetchURL (net w url i) url) = Some e"
    by (auto simp: fails_def)
  have ne: "i < retries c" using lt Suc.prems by auto
  have nc: "0 < retryDelay c \<longrightarrow> ctxDone w i = None" using Suc.prems lt by simp
  have IH: "\<And>vars tr. fst (GetRequest_loop c w url (i + 1) vars tr) = Inr (fetchURL (net w url k) url) \<and>
         effects (snd (GetRequest_loop c w url (i + 1) vars tr)) = effects tr @ schedule c url (i + 1) k"
    using Suc.hyps(1)[of "i + 1"] Suc.hyps(2) Suc.prems lt by auto
  show ?case
    unfolding loop_retry[OF ne e nc] by (simp add: IH schedule_step[OF lt])
qed

lemma loop_cancelled_at:
  assumes "i \<le> k" and "k < retries c" and "0 < retryDelay c"
    and "\<forall>j. i \<le> j \<and> j \<le> k \<longrightarrow> fails w url j"
    and "\<forall>j. i \<le> j \<and> j < k \<longrightarrow> ctxDone w j = None"
    and "ctxDone w k = Some cancelled"
  shows "fst (GetRequest_loop c w url i vars tr) = Inl (-1, None, -1, None, Some cancelled) \<and>
         effects (snd (GetRequest_loop c w url i vars tr)) =
           effects tr @ schedule c url i k @ [WaitAborted]"
  using assms
proof (induction "nat (k - i)" arbitrary: i vars tr)
  case 0
  then have ik: "i = k" by simp
  from "0.prems" obtain e where e: "err_of (fetchURL (net w url k) url) = Some e"
    unfolding ik by (auto simp: fails_def)
  show ?case
    unfolding ik loop_abort[OF "0.prems"(2) e "0.prems"(3,6)] by (simp add: schedule_single)
next
  case (Suc n)
  then have lt: "i < k" by linarith
  then have "fails w url i" using Suc.prems by simp
  then obtain e where e: "err_of (fetchURL (net w url i) url) = Some e"
    by (auto simp: fails_def)
  have ne: "i < retries c" using lt Suc.prems by auto
  have nc: "0 < retryDelay c \<longrightarrow> ctxDone w i = None" using Suc.prems lt by simp
  have IH: "\<And>vars tr. fst (GetRequest_loop c w url (i + 1) vars tr) = Inl (-1, None, -1, None, Some cancelled) \<and>
         effects (snd (GetRequest_loop c w url (i + 1) vars tr)) = effects tr @ schedule c url (i + 1) k @ [WaitAborted]"
    using Suc.hyps(1)[of "i + 1"] Suc.hyps(2) Suc.prems lt by auto
  show ?case
    unfolding loop_retry[OF ne e nc] by (simp add: IH schedule_step[OF lt] Suc.prems(3))
qed


lemma loop_fetch_bound:
  "length (filter is_fetch (snd (GetRequest_loop c w url i vars tr)))
     \<le> length (filter is_fetch tr) + nat (retries c + 1 - i)"
proof (induction c w url i vars tr rule: GetRequest_loop.induct)
  case (1 c w url i vars tr)
  show ?case
  proof (cases "i \<le> retries c")
    case False
    then show ?thesis by (subst GetRequest_loop.simps) simp
  next
    case le: True
    let ?r = "fetchURL (net w url i) url"
    let ?tr1 = "tr @ [Log Debug ''try #%d for %s'' [ArgInt i, ArgStr url], Fetch url i]"
    show ?thesis
    proof (cases "err_of ?r")
      case None
      then show ?thesis using le by (simp add: loop_break)
    next
      case (Some e)
      show ?thesis
      proof (cases "i = retries c")
        case True
        then show ?thesis using le by (simp add: loop_break)
      next
        case ne: False
        then have lt: "i < retries c" using le by simp
        show ?thesis
        proof (cases "0 < retryDelay c")
          case d: True
          show ?thesis
          proof (cases "ctxDone w i")
            case None
            have nc: "0 < retryDelay c \<longrightarrow> ctxDone w i = None" using None by simp
            have "length (filter is_fetch (snd (GetRequest_loop c w url (i + 1) ?r
                     (?tr1 @ [LogErr (Errorf_w ''got error on try #%d for %s, retrying after %s: %w''
                                 [ArgInt i, ArgStr url, ArgDuration (retryDelay c)] e)] @ [Wait (retryDelay c)]))))
                  \<le> length (filter is_fetch (?tr1 @ [LogErr (Errorf_w ''got error on try #%d for %s, retrying after %s: %w''
                                 [ArgInt i, ArgStr url, ArgDuration (retryDelay c)] e)] @ [Wait (retryDelay c)])) + nat (retries c + 1 - (i + 1))"
              using "1.IH"(1)[OF le refl refl Some ne d refl None] by simp
            then show ?thesis
              unfolding loop_retry[OF lt Some nc] using d lt by simp
          next
            case (Some cancelled)
            show ?thesis
              unfolding loop_abort[OF lt \<open>err_of ?r = Some e\<close> d Some] using lt by simp
          qed
        next
          case d: False
          have nc: "0 < retryDelay c \<longrightarrow> ctxDone w i = None" using d by simp
          have "length (filter is_fetch (snd (GetRequest_loop c w url (i + 1) ?r
                   (?tr1 @ [LogErr (Errorf_w ''got error on try #%d for %s, retrying: %w''
                                 [ArgInt i, ArgStr url] e)]))))
                \<le> length (filter is_fetch (?tr1 @ [LogErr (Errorf_w ''got error on try #%d for %s, retrying: %w''
                                 [ArgInt i, ArgStr url] e)])) + nat (retries c + 1 - (i + 1))"
            using "1.IH"(2)[OF le refl refl Some ne d] by simp
          then show ?thesis
            unfolding loop_retry[OF lt Some nc] using d lt by simp
        qed
      qed
    qed
  qed
qed

lemma GetRequest_fst_snd:
  "GetRequest c w url =
     (case fst (GetRequest_loop c w url 1 (0, None, 0, None, None) []) of
        Inl ret \<Rightarrow> ret
      | Inr (statusCode, hdr, requestDuration, body, err) \<Rightarrow>
          (case err of Some e \<Rightarrow> (-1, None, -1, None, Some e)
           | None \<Rightarrow> (statusCode, hdr, requestDuration, body, None)),
      snd (GetRequest_loop c w url 1 (0, None, 0, None, None) []))"
  by (simp add: GetRequest_def split: prod.splits sum.splits option.splits)

lemma fail_throughD: "fail_through w url k \<Longrightarrow> 1 \<le> j \<Longrightarrow> j \<le> k \<Longrightarrow> fails w url j"
  by (simp add: fail_through_def)

lemma uncancelled_throughD: "uncancelled_through w k \<Longrightarrow> 1 \<le> j \<Longrightarrow> j \<le> k \<Longrightarrow> ctxDone w j = None"
  by (simp add: uncancelled_through_def)

text \<open>
  What the schedule of the tries 1 to \<open>k\<close> consists of: the attempts 1 to \<open>k\<close> in order,
  a wait of \<open>retryDelay\<close> for each but the last when the delay is positive and no wait
  otherwise, and an attempt at the end.
\<close>

lemma schedule_fetches: "filter is_fetch (schedule c url i k) = map (Fetch url) [i..k]"
proof (induction "nat (k + 1 - i)" arbitrary: i)
  case 0
  then show ?case by (simp add: schedule_def)
next
  case (Suc n)
  show ?case
  proof (cases "i < k")
    case True
    have "n = nat (k + 1 - (i + 1))" using Suc.hyps(2) by linarith
    from Suc.hyps(1)[OF this] True show ?thesis
      by (simp add: schedule_step upto_rec1[of i k])
  next
    case False
    then have "i = k" using Suc.hyps(2) by linarith
    then show ?thesis by (simp add: schedule_single)
  qed
qed

lemma schedule_waits:
  "filter is_wait (schedule c url i k) =
     (if 0 < retryDelay c then replicate (nat (k - i)) (Wait (retryDelay c)) else [])"
proof (induction "nat (k + 1 - i)" arbitrary: i)
  case 0
  then show ?case by (simp add: schedule_def)
next
  case (Suc n)
  show ?case
  proof (cases "i < k")
    case True
    have "n = nat (k + 1 - (i + 1))" using Suc.hyps(2) by linarith
    moreover have "nat (k - i) = Suc (nat (k - (i + 1)))" using True by linarith
    ultimately show ?thesis using Suc.hyps(1)[of "i + 1"] True
      by (simp add: schedule_step)
  next
    case False
    then have "i = k" using Suc.hyps(2) by linarith
    then show ?thesis by (simp add: schedule_single)
  qed
qed

lemma schedule_last: "i \<le> k \<Longrightarrow> last (schedule c url i k) = Fetch url k"
proof (induction "nat (k - i)" arbitrary: i)
  case 0
  then have "i = k" by simp
  then show ?case by (simp add: schedule_single)
next
  case (Suc n)
  then have lt: "i < k" by linarith
  have "n = nat (k - (i + 1))" using Suc.hyps(2) by linarith
  from Suc.hyps(1)[OF this] lt have "last (schedule c url (i + 1) k) = Fetch url k" by simp
  moreover have "schedule c url (i + 1) k \<noteq> []"
    using lt by (cases "i + 1 < k") (auto simp: schedule_step schedule_def upto_rec1)
  ultimately show ?case using lt by (simp add: schedule_step)
qed

lemma GetRequest_zero: "retries c \<le> 0 \<Longrightarrow> GetRequest c n url = ((0, None, 0, None, None), [])"
  by (simp add: GetRequest_def GetRequest_loop.simps)

text \<open>
  C4, as amended: the retry policy of \<open>GetRequest\<close>. It never makes more than \<open>retries\<close>
  attempts. If try \<open>k\<close> is the first that succeeds, it returns the result of try \<open>k\<close>
  after the attempts 1 to \<open>k\<close>. If \<open>retries\<close> is at least 1 and every try fails, it
  returns the error of the last try after exactly \<open>retries\<close> attempts. In both cases it
  waits \<open>retryDelay\<close> between consecutive attempts when \<open>retryDelay\<close> is positive, not at
  all otherwise, and never after the last attempt. If the context is cancelled during the
  wait after the failed try \<open>k\<close>, it returns the context's error after the attempts 1 to
  \<open>k\<close>, without a further attempt. If \<open>retries\<close> is 0 or negative, it makes no attempt and
  returns the zero values with no error.
\<close>

theorem GetRequest_retry_policy:
  "length (filter is_fetch (snd (GetRequest c w url))) \<le> nat (retries c) \<and>
   (1 \<le> k \<and> k \<le> retries c \<and> fail_through w url (k - 1) \<and> \<not> fails w url k \<and>
      (0 < retryDelay c \<longrightarrow> uncancelled_through w (k - 1))
    \<longrightarrow> fst (GetRequest c w url) = fetchURL (net w url k) url \<and>
        effects (snd (GetRequest c w url)) = schedule c url 1 k) \<and>
   (1 \<le> retries c \<and> fail_through w url (retries c) \<and>
      (0 < retryDelay c \<longrightarrow> uncancelled_through w (retries c - 1))
    \<longrightarrow> (\<exists>e. err_of (fetchURL (net w url (retries c)) url) = Some e \<and>
             fst (GetRequest c w url) = (-1, None, -1, None, Some e)) \<and>
        effects (snd (GetRequest c w url)) = schedule c url 1 (retries c)) \<and>
   (1 \<le> k \<and> k < retries c \<and> 0 < retryDelay c \<and> fail_through w url k \<and>
      uncancelled_through w (k - 1) \<and> ctxDone w k = Some cancelled
    \<longrightarrow> fst (GetRequest c w url) = (-1, None, -1, None, Some cancelled) \<and>
        effects (snd (GetRequest c w url)) = schedule c url 1 k @ [WaitAborted]) \<and>
   (retries c \<le> 0 \<longrightarrow> GetRequest c w url = ((0, None, 0, None, None), []))"
proof (intro conjI impI)
  show "length (filter is_fetch (snd (GetRequest c w url))) \<le> nat (retries c)"
    using loop_fetch_bound[of c w url 1 "(0, None, 0, None, None)" "[]"]
    by (simp add: GetRequest_fst_snd)
next
  assume a: "1 \<le> k \<and> k \<le> retries c \<and> fail_through w url (k - 1) \<and> \<not> fails w url k \<and>
      (0 < retryDelay c \<longrightarrow> uncancelled_through w (k - 1))"
  have l: "fst (GetRequest_loop c w url 1 (0, None, 0, None, None) []) = Inr (fetchURL (net w url k) url) \<and>
        effects (snd (GetRequest_loop c w url 1 (0, None, 0, None, None) [])) = effects [] @ schedule c url 1 k"
    using a by (intro loop_stops_at) (auto dest: fail_throughD uncancelled_throughD)
  from a have ok: "err_of (fetchURL (net w url k) url) = None" by (simp add: fails_def)
  show "fst (GetRequest c w url) = fetchURL (net w url k) url"
    using l ok by (cases "fetchURL (net w url k) url") (simp add: GetRequest_fst_snd)
  show "effects (snd (GetRequest c w url)) = schedule c url 1 k"
    using l by (simp add: GetRequest_fst_snd)
next
  assume a: "1 \<le> retries c \<and> fail_through w url (retries c) \<and>
      (0 < retryDelay c \<longrightarrow> uncancelled_through w (retries c - 1))"
  have l: "fst (GetRequest_loop c w url 1 (0, None, 0, None, None) []) = Inr (fetchURL (net w url (retries c)) url) \<and>
        effects (snd (GetRequest_loop c w url 1 (0, None, 0, None, None) [])) = effects [] @ schedule c url 1 (retries c)"
    using a by (intro loop_stops_at) (auto dest: fail_throughD uncancelled_throughD)
  from a have "fails w url (retries c)" by (auto dest: fail_throughD)
  then obtain e where e: "err_of (fetchURL (net w url (retries c)) url) = Some e"
    by (auto simp: fails_def)
  show "\<exists>e. err_of (fetchURL (net w url (retries c)) url) = Some e \<and>
             fst (GetRequest c w url) = (-1, None, -1, None, Some e)"
    using l e by (cases "fetchURL (net w url (retries c)) url") (simp add: GetRequest_fst_snd)
  show "effects (snd (GetRequest c w url)) = schedule c url 1 (retries c)"
    using l by (simp add: GetRequest_fst_snd)
next
  assume a: "1 \<le> k \<and> k < retries c \<and> 0 < retryDelay c \<and> fail_through w url k \<and>
      uncancelled_through w (k - 1) \<and> ctxDone w k = Some cancelled"
  have l: "fst (GetRequest_loop c w url 1 (0, None, 0, None, None) []) = Inl (-1, None, -1, None, Some cancelled) \<and>
        effects (snd (GetRequest_loop c w url 1 (0, None, 0, None, None) [])) = effects [] @ schedule c url 1 k @ [WaitAborted]"
    using a by (intro loop_cancelled_at) (auto dest: fail_throughD uncancelled_throughD)
  show "fst (GetRequest c w url) = (-1, None, -1, None, Some cancelled)"
    using l by (simp add: GetRequest_fst_snd)
  show "effects (snd (GetRequest c w url)) = schedule c url 1 k @ [WaitAborted]"
    using l by (simp add: GetRequest_fst_snd)
next
  assume "retries c \<le> 0"
  then show "GetRequest c w url = ((0, None, 0, None, None), [])"
    by (rule GetRequest_zero)
qed

text \<open>
  C4 as stated fails when \<open>retries\<close> is 0: on a network where every round trip fails,
  \<open>GetRequest\<close> makes no attempt and returns no error.
\<close>

theorem GetRequest_zero_retries_counterexample:
  "GetRequest \<lparr>userAgent = ''websitewatcher'', retries = 0, retryDelay = 1000\<rparr> dead_network
     ''https://example.org'' = ((0, None, 0, None, None), [])"
  by (simp add: GetRequest_def GetRequest_loop.simps)


theorem GetRequest_retry_policy_witness:
  "fst (GetRequest \<lparr>userAgent = ''websitewatcher'', retries = 3, retryDelay = 1000\<rparr> flaky_network ''u'')
     = (200, None, 7, Some ''v2'', None) \<and>
   effects (snd (GetRequest \<lparr>userAgent = ''websitewatcher'', retries = 3, retryDelay = 1000\<rparr> flaky_network ''u''))
     = [Fetch ''u'' 1, Wait 1000, Fetch ''u'' 2] \<and>
   fst (GetRequest \<lparr>userAgent = ''websitewatcher'', retries = 3, retryDelay = 1000\<rparr> dead_network ''u'')
     = (-1, None, -1, None, Some (Errorf_w ''could not get %s: %w'' [ArgStr ''u''] (UrlError ''Get'' False))) \<and>
   effects (snd (GetRequest \<lparr>userAgent = ''websitewatcher'', retries = 3, retryDelay = 1000\<rparr> dead_network ''u''))
     = [Fetch ''u'' 1, Wait 1000, Fetch ''u'' 2, Wait 1000, Fetch ''u'' 3] \<and>
   fst (GetRequest \<lparr>userAgent = ''websitewatcher'', retries = 3, retryDelay = 1000\<rparr> cancelled_network ''u'')
     = (-1, None, -1, None, Some (Foreign ''context canceled'')) \<and>
   effects (snd (GetRequest \<lparr>userAgent = ''websitewatcher'', retries = 3, retryDelay = 1000\<rparr> cancelled_network ''u''))
     = [Fetch ''u'' 1, Wait 1000, Fetch ''u'' 2, WaitAborted] \<and>
   GetRequest \<lparr>userAgent = ''websitewatcher'', retries = -1, retryDelay = 1000\<rparr> flaky_network ''u''
     = ((0, None, 0, None, None), [])"
  using GetRequest_retry_policy [of "\<lparr>userAgent = ''websitewatcher'', retries = 3, retryDelay = 1000\<rparr>"
      flaky_network "''u''" 2]
    GetRequest_retry_policy [of "\<lparr>userAgent = ''websitewatcher'', retries = 3, retryDelay = 1000\<rparr>"
      dead_network "''u''"]
    GetRequest_retry_policy [of "\<lparr>userAgent = ''websitewatcher'', retries = 3, retryDelay = 1000\<rparr>"
      cancelled_network "''u''" 2 "Foreign ''context canceled''"]
    GetRequest_retry_policy [of "\<lparr>userAgent = ''websitewatcher'', retries = -1, retryDelay = 1000\<rparr>"
      flaky_network "''u''"]
  by (simp add: fail_through_def uncancelled_through_def fails_def fetchURL_def flaky_network_def
      dead_network_def cancelled_network_def schedule_def isSoftError_def len_def bytes_of_def
      bytes_Contains_def upto_rec1)

section \<open>Properties of processWatch\<close>

lemma mails_emit [simp]: "mails (emit evs s) = mails s @ filter is_mail evs"
  by (simp add: mails_def emit_def)

lemma db_emit [simp]: "db (emit evs s) = db s"
  by (simp add: emit_def)

lemma mails_db_update [simp]: "mails (s\<lparr>db := d\<rparr>) = mails s"
  by (simp add: mails_def)

lemma loop_no_mail:
  "filter is_mail (snd (GetRequest_loop c w url i vars tr)) = filter is_mail tr"
proof (induction c w url i vars tr rule: GetRequest_loop.induct)
  case (1 c w url i vars tr)
  show ?case
  proof (cases "i \<le> retries c")
    case False
    then show ?thesis by (subst GetRequest_loop.simps) simp
  next
    case le: True
    let ?r = "fetchURL (net w url i) url"
    show ?thesis
    proof (cases "err_of ?r = None \<or> i = retries c")
      case True
      then show ?thesis using le by (simp add: loop_break)
    next
      case False
      then obtain e where e: "err_of ?r = Some e" and ne: "i \<noteq> retries c" by auto
      then have lt: "i < retries c" using le by simp
      show ?thesis
      proof (cases "0 < retryDelay c")
        case d: True
        show ?thesis
        proof (cases "ctxDone w i")
          case None
          have nc: "0 < retryDelay c \<longrightarrow> ctxDone w i = None" using None by simp
          show ?thesis
            unfolding loop_retry[OF lt e nc]
            using "1.IH"(1)[OF le refl refl e ne d refl None] d by simp
        next
          case (Some cancelled)
          show ?thesis
            unfolding loop_abort[OF lt e d Some] by simp
        qed
      next
        case d: False
        have nc: "0 < retryDelay c \<longrightarrow> ctxDone w i = None" using d by simp
        show ?thesis
          unfolding loop_retry[OF lt e nc]
          using "1.IH"(2)[OF le refl refl e ne d] d by simp
      qed
    qed
  qed
qed

lemma GetRequest_no_mail: "filter is_mail (snd (GetRequest c w url)) = []"
  using loop_no_mail[of c w url 1 "(0, None, 0, None, None)" "[]"]
  by (simp add: GetRequest_fst_snd)

lemma replace_loop_no_mail:
  "filter is_mail (snd (replace_loop out rs body tr)) = filter is_mail tr"
  by (induction rs arbitrary: body tr) (auto simp: Let_def split: sum.splits)

lemma replace_loop_fst: "fst (replace_loop out rs body tr) = replacements out rs body"
  by (induction rs arbitrary: body tr) (auto simp: Let_def split: sum.splits)

text \<open>What processWatch does after the fetch, in terms of the database and the mails.\<close>

lemma processWatch_fetch_error:
  assumes "GetRequest (httpClient a) (wire out) (URL w) = ((statusCode, hdr, dur, body, Some e), evs)"
  shows "\<exists>s1. processWatch out a w s = on_fetch_error out a w dur e s1 \<and> db s1 = db s \<and> mails s1 = mails s"
proof -
  have "filter is_mail evs = []" using GetRequest_no_mail[of "httpClient a" "wire out" "URL w"] assms by simp
  then show ?thesis using assms
    by (auto simp: processWatch_def Let_def)
qed

lemma processWatch_transform_error:
  assumes "GetRequest (httpClient a) (wire out) (URL w) = ((statusCode, hdr, dur, body, None), evs)"
    and "transform out w body = Inl e"
  shows "fst (processWatch out a w s) = Some e \<and> db (snd (processWatch out a w s)) = db s \<and>
         mails (snd (processWatch out a w s)) = mails s"
proof -
  have m: "filter is_mail evs = []" using GetRequest_no_mail[of "httpClient a" "wire out" "URL w"] assms by simp
  show ?thesis
  proof (cases "extract_content out w body")
    case (Inl e')
    then show ?thesis using assms m
      by (simp add: processWatch_def on_fetch_success_def transform_def Let_def)
  next
    case (Inr extracted)
    obtain r logs where rl: "replace_loop out (Replaces w) extracted [] = (r, logs)" by fastforce
    have "filter is_mail logs = []" using replace_loop_no_mail[of out "Replaces w" extracted "[]"] rl by simp
    moreover have "r = Inl e" using assms(2) Inr rl by (simp add: transform_def)
    ultimately show ?thesis using assms(1) m Inr rl
      by (simp add: processWatch_def on_fetch_success_def Let_def)
  qed
qed

lemma processWatch_transformed:
  assumes "GetRequest (httpClient a) (wire out) (URL w) = ((statusCode, hdr, dur, body, None), evs)"
    and "transform out w body = Inr new"
  shows "\<exists>s1. processWatch out a w s =
                 compare_and_store out a w (GetDatabaseEntry (db s) (URL w)) statusCode dur new s1 \<and>
              db s1 = db s \<and> mails s1 = mails s"
proof -
  have m: "filter is_mail evs = []" using GetRequest_no_mail[of "httpClient a" "wire out" "URL w"] assms by simp
  from assms(2) obtain extracted where ex: "extract_content out w body = Inr extracted"
    by (auto simp: transform_def split: sum.splits)
  obtain r logs where rl: "replace_loop out (Replaces w) extracted [] = (r, logs)" by fastforce
  have l: "filter is_mail logs = []" using replace_loop_no_mail[of out "Replaces w" extracted "[]"] rl by simp
  have "r = Inr new" using assms(2) ex rl by (simp add: transform_def)
  then show ?thesis using assms(1) m ex rl l
    by (auto simp: processWatch_def on_fetch_success_def Let_def)
qed

lemma compare_new:
  assumes "lastContent = None"
  shows "fst (compare_and_store out a w lastContent statusCode dur new s) = None \<and>
         db (snd (compare_and_store out a w lastContent statusCode dur new s)) = SetDatabaseEntry (db s) (URL w) new \<and>
         mails (snd (compare_and_store out a w lastContent statusCode dur new s)) = mails s"
  using assms by (simp add: compare_and_store_def Let_def)

lemma compare_unchanged:
  assumes "lastContent \<noteq> None" and "bytes_Equal lastContent new"
  shows "fst (compare_and_store out a w lastContent statusCode dur new s) = None \<and>
         db (snd (compare_and_store out a w lastContent statusCode dur new s)) = SetDatabaseEntry (db s) (URL w) new \<and>
         mails (snd (compare_and_store out a w lastContent statusCode dur new s)) = mails s"
  using assms by (simp add: compare_and_store_def Let_def)

lemma run_watch_ok:
  assumes "fst (processWatch out a w s) = None"
  shows "run_watch out a w s = snd (processWatch out a w s)"
  using assms by (cases "processWatch out a w s") (simp add: run_watch_def)

lemma run_watch_error:
  assumes "fst (processWatch out a w s) = Some e"
  shows "db (run_watch out a w s) = db (snd (processWatch out a w s)) \<and>
         mails (run_watch out a w s) = mails (snd (processWatch out a w s)) @ [ErrorEmail w e]"
  using assms by (cases "processWatch out a w s") (simp add: run_watch_def Let_def split: option.splits)

text \<open>
  C2. When the store has no entry for the watch's URL and the fetch and the transformation
  succeed, \<open>processWatch\<close> returns no error, writes the transformed body into the store
  under the URL and hands no mail to the mailer, whatever the content is; \<open>run\<close> sends
  none either.
\<close>

theorem processWatch_new_resource:
  assumes "GetRequest (httpClient a) (wire out) (URL w) = ((statusCode, hdr, dur, body, None), evs)"
    and "transform out w body = Inr new"
    and "GetDatabaseEntry (db s) (URL w) = None"
  shows "fst (processWatch out a w s) = None \<and>
         db (snd (processWatch out a w s)) = SetDatabaseEntry (db s) (URL w) new \<and>
         GetDatabaseEntry (db (snd (processWatch out a w s))) (URL w) = new \<and>
         mails (snd (processWatch out a w s)) = mails s \<and>
         mails (run_watch out a w s) = mails s"
proof -
  obtain s1 where s1: "processWatch out a w s = compare_and_store out a w None statusCode dur new s1"
      "db s1 = db s" "mails s1 = mails s"
    using processWatch_transformed[OF assms(1,2), of s] assms(3) by auto
  have c: "fst (processWatch out a w s) = None"
     "db (snd (processWatch out a w s)) = SetDatabaseEntry (db s) (URL w) new"
     "mails (snd (processWatch out a w s)) = mails s"
    using compare_new[of None out a w statusCode dur new s1] s1 by simp_all
  then show ?thesis using run_watch_ok[OF c(1)]
    by (simp add: GetDatabaseEntry_def SetDatabaseEntry_def)
qed

text \<open>
  C3. When the entry of the store for the watch's URL has the same bytes as the fetched
  and transformed content, \<open>processWatch\<close> returns no error, hands no mail to the mailer
  (nor does \<open>run\<close>), and writes the transformed content into the store: the entry holds
  the same bytes as before.
\<close>

theorem processWatch_unchanged:
  assumes "GetRequest (httpClient a) (wire out) (URL w) = ((statusCode, hdr, dur, body, None), evs)"
    and "transform out w body = Inr new"
    and "GetDatabaseEntry (db s) (URL w) = Some old"
    and "bytes_Equal (Some old) new"
  shows "fst (processWatch out a w s) = None \<and>
         mails (snd (processWatch out a w s)) = mails s \<and>
         mails (run_watch out a w s) = mails s \<and>
         db (snd (processWatch out a w s)) = SetDatabaseEntry (db s) (URL w) new \<and>
         bytes_of (GetDatabaseEntry (db (snd (processWatch out a w s))) (URL w)) = old"
proof -
  obtain s1 where s1: "processWatch out a w s = compare_and_store out a w (Some old) statusCode dur new s1"
      "db s1 = db s" "mails s1 = mails s"
    using processWatch_transformed[OF assms(1,2), of s] assms(3) by auto
  have c: "fst (processWatch out a w s) = None"
     "db (snd (processWatch out a w s)) = SetDatabaseEntry (db s) (URL w) new"
     "mails (snd (processWatch out a w s)) = mails s"
    using compare_unchanged[of "Some old" new out a w statusCode dur s1] s1 assms(4) by simp_all
  then show ?thesis using run_watch_ok[OF c(1)] assms(4)
    by (simp add: GetDatabaseEntry_def SetDatabaseEntry_def bytes_Equal_def bytes_of_def)
qed

lemma compare_changed_test:
  assumes "lastContent \<noteq> None" and "\<not> bytes_Equal lastContent new" and "testMode a"
  shows "fst (compare_and_store out a w lastContent statusCode dur new s) = None \<and>
         db (snd (compare_and_store out a w lastContent statusCode dur new s)) = SetDatabaseEntry (db s) (URL w) new \<and>
         mails (snd (compare_and_store out a w lastContent statusCode dur new s)) = mails s \<and>
         trace (snd (compare_and_store out a w lastContent statusCode dur new s)) =
           trace s @ [Log Debug ''Website %s %s differ! Would send email in prod'' [ArgStr (Name w), ArgStr (URL w)]]"
  using assms by (simp add: compare_and_store_def Let_def emit_def mails_def)

lemma compare_changed_diff_fails:
  assumes "lastContent \<noteq> None" and "\<not> bytes_Equal lastContent new" and "\<not> testMode a"
    and "DiffAPI out (bytes_of lastContent) (bytes_of new) = Inl e"
  shows "fst (compare_and_store out a w lastContent statusCode dur new s) =
           Some (Errorf_w ''error on creating htmlcontent: %w'' [] e) \<and>
         db (snd (compare_and_store out a w lastContent statusCode dur new s)) = db s \<and>
         mails (snd (compare_and_store out a w lastContent statusCode dur new s)) = mails s"
  using assms by (simp add: compare_and_store_def generateHTMLContentForEmail_def Let_def)

lemma compare_changed_mail:
  assumes "lastContent \<noteq> None" and "\<not> bytes_Equal lastContent new" and "\<not> testMode a"
    and "DiffAPI out (bytes_of lastContent) (bytes_of new) = Inr (css, markup)"
  shows "\<exists>content.
           mails (snd (compare_and_store out a w lastContent statusCode dur new s)) =
             mails s @ [HTMLEmail w (''Detected change on '' @ Name w) content] \<and>
           (case SendHTMLEmail out w (''Detected change on '' @ Name w) content of
              None \<Rightarrow>
                fst (compare_and_store out a w lastContent statusCode dur new s) = None \<and>
                db (snd (compare_and_store out a w lastContent statusCode dur new s)) =
                  SetDatabaseEntry (db s) (URL w) new
            | Some e \<Rightarrow>
                fst (compare_and_store out a w lastContent statusCode dur new s) =
                  Some (Errorf_w ''error on sending email: %w'' [] e) \<and>
                db (snd (compare_and_store out a w lastContent statusCode dur new s)) = db s)"
  using assms
  by (auto simp: compare_and_store_def generateHTMLContentForEmail_def Let_def split: option.splits)

text \<open>
  C1, as amended. When the entry of the store for the watch's URL differs from the fetched
  and transformed content: in test mode the change is logged, no mail is handed to the
  mailer and the entry becomes the new content. Otherwise the diff is rendered first; if
  that fails, \<open>processWatch\<close> returns the error, no mail is attempted and the store is
  not changed; if it succeeds, exactly one change mail is handed to the mailer, and the
  entry becomes the new content when the mailer accepts it, while \<open>processWatch\<close> returns
  the error and leaves the store as it was when the mailer fails.
\<close>

theorem processWatch_changed:
  assumes "GetRequest (httpClient a) (wire out) (URL w) = ((statusCode, hdr, dur, body, None), evs)"
    and "transform out w body = Inr new"
    and "GetDatabaseEntry (db s) (URL w) = Some old"
    and "\<not> bytes_Equal (Some old) new"
  shows "(testMode a \<longrightarrow>
            fst (processWatch out a w s) = None \<and>
            mails (snd (processWatch out a w s)) = mails s \<and>
            Log Debug ''Website %s %s differ! Would send email in prod'' [ArgStr (Name w), ArgStr (URL w)]
              \<in> set (trace (snd (processWatch out a w s))) \<and>
            db (snd (processWatch out a w s)) = SetDatabaseEntry (db s) (URL w) new) \<and>
         (\<not> testMode a \<longrightarrow>
            (case DiffAPI out old (bytes_of new) of
               Inl e \<Rightarrow>
                 fst (processWatch out a w s) = Some (Errorf_w ''error on creating htmlcontent: %w'' [] e) \<and>
                 mails (snd (processWatch out a w s)) = mails s \<and>
                 db (snd (processWatch out a w s)) = db s
             | Inr rendered \<Rightarrow>
                 (\<exists>content.
                    mails (snd (processWatch out a w s)) =
                      mails s @ [HTMLEmail w (''Detected change on '' @ Name w) content] \<and>
                    (case SendHTMLEmail out w (''Detected change on '' @ Name w) content of
                       None \<Rightarrow>
                         fst (processWatch out a w s) = None \<and>
                         db (snd (processWatch out a w s)) = SetDatabaseEntry (db s) (URL w) new
                     | Some e \<Rightarrow>
                         fst (processWatch out a w s) = Some (Errorf_w ''error on sending email: %w'' [] e) \<and>
                         db (snd (processWatch out a w s)) = db s))))"
proof -
  obtain s1 where s1: "processWatch out a w s = compare_and_store out a w (Some old) statusCode dur new s1"
      "db s1 = db s" "mails s1 = mails s"
    using processWatch_transformed[OF assms(1,2), of s] assms(3) by auto
  have ne: "Some old \<noteq> None" by simp
  show ?thesis
  proof (intro conjI impI)
    assume t: "testMode a"
    note c = compare_changed_test[OF ne assms(4) t, of out w statusCode dur s1]
    show "fst (processWatch out a w s) = None" using c s1 by simp
    show "mails (snd (processWatch out a w s)) = mails s" using c s1 by simp
    show "Log Debug ''Website %s %s differ! Would send email in prod'' [ArgStr (Name w), ArgStr (URL w)]
              \<in> set (trace (snd (processWatch out a w s)))" using c s1 by simp
    show "db (snd (processWatch out a w s)) = SetDatabaseEntry (db s) (URL w) new" using c s1 by simp
  next
    assume t: "\<not> testMode a"
    show "case DiffAPI out old (bytes_of new) of
               Inl e \<Rightarrow>
                 fst (processWatch out a w s) = Some (Errorf_w ''error on creating htmlcontent: %w'' [] e) \<and>
                 mails (snd (processWatch out a w s)) = mails s \<and>
                 db (snd (processWatch out a w s)) = db s
             | Inr rendered \<Rightarrow>
                 (\<exists>content.
                    mails (snd (processWatch out a w s)) =
                      mails s @ [HTMLEmail w (''Detected change on '' @ Name w) content] \<and>
                    (case SendHTMLEmail out w (''Detected change on '' @ Name w) content of
                       None \<Rightarrow>
                         fst (processWatch out a w s) = None \<and>
                         db (snd (processWatch out a w s)) = SetDatabaseEntry (db s) (URL w) new
                     | Some e \<Rightarrow>
                         fst (processWatch out a w s) = Some (Errorf_w ''error on sending email: %w'' [] e) \<and>
                         db (snd (processWatch out a w s)) = db s))"
    proof (cases "DiffAPI out old (bytes_of new)")
      case (Inl e)
      then have d: "DiffAPI out (bytes_of (Some old)) (bytes_of new) = Inl e" by (simp add: bytes_of_def)
      show ?thesis
        using compare_changed_diff_fails[OF ne assms(4) t d, of w statusCode dur s1] s1 Inl by simp
    next
      case (Inr rendered)
      obtain css markup where r: "rendered = (css, markup)" by (cases rendered)
      have d: "DiffAPI out (bytes_of (Some old)) (bytes_of new) = Inr (css, markup)"
        using Inr r by (simp add: bytes_of_def)
      let ?cs = "compare_and_store out a w (Some old) statusCode dur new s1"
      obtain content where
        c1: "mails (snd ?cs) = mails s1 @ [HTMLEmail w (''Detected change on '' @ Name w) content]"
        and c2: "case SendHTMLEmail out w (''Detected change on '' @ Name w) content of
                   None \<Rightarrow> fst ?cs = None \<and> db (snd ?cs) = SetDatabaseEntry (db s1) (URL w) new
                 | Some e \<Rightarrow> fst ?cs = Some (Errorf_w ''error on sending email: %w'' [] e) \<and>
                     db (snd ?cs) = db s1"
        using compare_changed_mail[OF ne assms(4) t d, of w statusCode dur s1] by blast
      have "\<exists>content.
              mails (snd (processWatch out a w s)) =
                mails s @ [HTMLEmail w (''Detected change on '' @ Name w) content] \<and>
              (case SendHTMLEmail out w (''Detected change on '' @ Name w) content of
                 None \<Rightarrow>
                   fst (processWatch out a w s) = None \<and>
                   db (snd (processWatch out a w s)) = SetDatabaseEntry (db s) (URL w) new
               | Some e \<Rightarrow>
                   fst (processWatch out a w s) = Some (Errorf_w ''error on sending email: %w'' [] e) \<and>
                   db (snd (processWatch out a w s)) = db s)"
        unfolding s1(1) using c1 c2 s1(2,3) by (intro exI[of _ content]) (auto split: option.splits)
      then show ?thesis unfolding Inr by simp
    qed
  qed
qed

text \<open>
  C9. Two runs of \<open>processWatch\<close> in succession on the same watch, in the same
  surroundings, starting from a store whose entry for the URL has the bytes of the
  transformed content: both return no error and hand no mail to the mailer, the entry
  holds the same bytes after each run, and the second run leaves the store as the first
  left it. When the transformed content is not the nil slice, the store after the first
  run is the store before it, with the entry present.
\<close>

theorem processWatch_twice:
  assumes "GetRequest (httpClient a) (wire out) (URL w) = ((statusCode, hdr, dur, body, None), evs)"
    and "transform out w body = Inr new"
    and "GetDatabaseEntry (db s) (URL w) = Some old"
    and "bytes_Equal (Some old) new"
  shows "fst (processWatch out a w s) = None \<and>
         fst (processWatch out a w (snd (processWatch out a w s))) = None \<and>
         mails (snd (processWatch out a w s)) = mails s \<and>
         mails (snd (processWatch out a w (snd (processWatch out a w s)))) = mails s \<and>
         bytes_of (GetDatabaseEntry (db (snd (processWatch out a w s))) (URL w)) = old \<and>
         bytes_of (GetDatabaseEntry (db (snd (processWatch out a w (snd (processWatch out a w s))))) (URL w)) = old \<and>
         db (snd (processWatch out a w (snd (processWatch out a w s)))) = db (snd (processWatch out a w s)) \<and>
         (new \<noteq> None \<longrightarrow> GetDatabaseEntry (db (snd (processWatch out a w s))) (URL w) = Some old \<and>
            db (snd (processWatch out a w s)) = db s)"
proof -
  let ?s1 = "snd (processWatch out a w s)"
  let ?s2 = "snd (processWatch out a w ?s1)"
  obtain t1 where t1: "processWatch out a w s = compare_and_store out a w (Some old) statusCode dur new t1"
      "db t1 = db s" "mails t1 = mails s"
    using processWatch_transformed[OF assms(1,2), of s] assms(3) by auto
  have c1: "fst (processWatch out a w s) = None"
     "db ?s1 = SetDatabaseEntry (db s) (URL w) new"
     "mails ?s1 = mails s"
    using compare_unchanged[of "Some old" new out a w statusCode dur t1] t1 assms(4) by simp_all
  have g1: "GetDatabaseEntry (db ?s1) (URL w) = new"
    using c1(2) by (simp add: GetDatabaseEntry_def SetDatabaseEntry_def)
  obtain t2 where t2: "processWatch out a w ?s1 = compare_and_store out a w new statusCode dur new t2"
      "db t2 = db ?s1" "mails t2 = mails ?s1"
    using processWatch_transformed[OF assms(1,2), of ?s1] g1 by auto
  have c2: "fst (processWatch out a w ?s1) = None \<and>
     db ?s2 = SetDatabaseEntry (db ?s1) (URL w) new \<and>
     mails ?s2 = mails ?s1"
  proof (cases new)
    case None
    then show ?thesis using compare_new[of new out a w statusCode dur new t2] t2 by simp
  next
    case (Some content)
    then have "new \<noteq> None" "bytes_Equal new new" by (simp_all add: bytes_Equal_def)
    then show ?thesis using compare_unchanged[of new new out a w statusCode dur t2] t2 by simp
  qed
  have same: "db ?s2 = db ?s1"
    using c2 c1(2) by (simp add: SetDatabaseEntry_def)
  have b: "bytes_of new = old" using assms(4) by (simp add: bytes_Equal_def bytes_of_def)
  have keep: "new \<noteq> None \<longrightarrow> new = Some old \<and> db ?s1 = db s"
  proof
    assume "new \<noteq> None"
    then have n: "new = Some old" using b by (auto simp: bytes_of_def)
    moreover have "db ?s1 = db s"
      using c1(2) assms(3) n by (auto simp: SetDatabaseEntry_def GetDatabaseEntry_def)
    ultimately show "new = Some old \<and> db ?s1 = db s" by simp
  qed
  have present: "new \<noteq> None \<longrightarrow> GetDatabaseEntry (db ?s1) (URL w) = Some old \<and> db ?s1 = db s"
    using keep g1 by auto
  have b1: "bytes_of (GetDatabaseEntry (db ?s1) (URL w)) = old" using g1 b by simp
  have b2: "bytes_of (GetDatabaseEntry (db ?s2) (URL w)) = old" using same g1 b by simp
  have m2: "mails ?s2 = mails s" using c1(3) c2 by simp
  have f2: "fst (processWatch out a w ?s1) = None" using c2 by simp
  show ?thesis
    by (intro conjI c1(1) f2 c1(3) m2 b1 b2 same present)
qed

section \<open>Properties of the error handling of processWatch\<close>

lemma on_fetch_error_ignored:
  assumes "As_InvalidResponseError e = Some (code, rhdr, rbody)"
    and "code \<in> set (HTTPErrorsToIgnore (config a)) \<or> code \<in> set (AdditionalHTTPErrorsToIgnore w)"
  shows "fst (on_fetch_error out a w dur e s) = None \<and>
         db (snd (on_fetch_error out a w dur e s)) = db s \<and>
         mails (snd (on_fetch_error out a w dur e s)) = mails s"
  using assms by (auto simp: on_fetch_error_def Let_def)

lemma on_fetch_error_reported:
  assumes "As_InvalidResponseError e = Some (code, rhdr, rbody)"
    and "code \<notin> set (HTTPErrorsToIgnore (config a))"
    and "code \<notin> set (AdditionalHTTPErrorsToIgnore w)"
  shows "\<exists>content.
           mails (snd (on_fetch_error out a w dur e s)) =
             mails s @ [HTMLEmail w (''Invalid response for '' @ Name w) content] \<and>
           fst (on_fetch_error out a w dur e s) =
             (case SendHTMLEmail out w (''Invalid response for '' @ Name w) content of
                None \<Rightarrow> None
              | Some e' \<Rightarrow> Some (Errorf_w ''error on sending email: %w'' [] e')) \<and>
           db (snd (on_fetch_error out a w dur e s)) = db s"
  using assms
  by (auto simp: on_fetch_error_def generateHTMLContentForEmail_def Let_def split: option.splits)

lemma on_fetch_error_transport:
  assumes "As_InvalidResponseError e = None"
  shows "on_fetch_error out a w dur e s = (if As_UrlError e = Some True then None else Some e, s)"
  using assms by (simp add: on_fetch_error_def)

text \<open>
  C6. When \<open>GetRequest\<close> ends in an \<open>InvalidResponseError\<close>: if its status code is in the
  global ignore list or in the watch's own, \<open>processWatch\<close> returns no error, no mail is
  handed to the mailer by it or by \<open>run\<close>, and the store is not changed; if the code is
  in neither list, \<open>processWatch\<close> hands one "Invalid response" mail to the mailer and the
  store is not changed, by it or by \<open>run\<close>.
\<close>

theorem processWatch_hard_error:
  assumes "GetRequest (httpClient a) (wire out) (URL w) = ((statusCode, hdr, dur, body, Some e), evs)"
    and "As_InvalidResponseError e = Some (code, rhdr, rbody)"
  shows "(code \<in> set (HTTPErrorsToIgnore (config a)) \<or> code \<in> set (AdditionalHTTPErrorsToIgnore w) \<longrightarrow>
            fst (processWatch out a w s) = None \<and>
            mails (snd (processWatch out a w s)) = mails s \<and>
            db (snd (processWatch out a w s)) = db s \<and>
            mails (run_watch out a w s) = mails s \<and>
            db (run_watch out a w s) = db s) \<and>
         (code \<notin> set (HTTPErrorsToIgnore (config a)) \<and> code \<notin> set (AdditionalHTTPErrorsToIgnore w) \<longrightarrow>
            (\<exists>content. mails (snd (processWatch out a w s)) =
               mails s @ [HTMLEmail w (''Invalid response for '' @ Name w) content]) \<and>
            db (snd (processWatch out a w s)) = db s \<and>
            db (run_watch out a w s) = db s)"
proof -
  obtain s1 where s1: "processWatch out a w s = on_fetch_error out a w dur e s1"
      "db s1 = db s" "mails s1 = mails s"
    using processWatch_fetch_error[OF assms(1), of s] by auto
  show ?thesis
  proof (intro conjI impI)
    assume ig: "code \<in> set (HTTPErrorsToIgnore (config a)) \<or> code \<in> set (AdditionalHTTPErrorsToIgnore w)"
    have c: "fst (processWatch out a w s) = None" "db (snd (processWatch out a w s)) = db s"
      "mails (snd (processWatch out a w s)) = mails s"
      using on_fetch_error_ignored[OF assms(2) ig, of out dur s1] s1 by simp_all
    show "fst (processWatch out a w s) = None" by (rule c)
    show "mails (snd (processWatch out a w s)) = mails s" by (rule c)
    show "db (snd (processWatch out a w s)) = db s" by (rule c)
    show "mails (run_watch out a w s) = mails s" using run_watch_ok[OF c(1)] c by simp
    show "db (run_watch out a w s) = db s" using run_watch_ok[OF c(1)] c by simp
  next
    assume ni: "code \<notin> set (HTTPErrorsToIgnore (config a)) \<and> code \<notin> set (AdditionalHTTPErrorsToIgnore w)"
    then obtain content where c:
      "mails (snd (processWatch out a w s)) = mails s @ [HTMLEmail w (''Invalid response for '' @ Name w) content]"
      "db (snd (processWatch out a w s)) = db s"
      using on_fetch_error_reported[OF assms(2), of a w out dur s1] s1 by auto
    show "\<exists>content. mails (snd (processWatch out a w s)) =
               mails s @ [HTMLEmail w (''Invalid response for '' @ Name w) content]"
      using c(1) by blast
    show "db (snd (processWatch out a w s)) = db s" by (rule c)
    show "db (run_watch out a w s) = db s"
    proof (cases "fst (processWatch out a w s)")
      case None
      then show ?thesis using run_watch_ok[OF None] c by simp
    next
      case (Some e')
      then show ?thesis using run_watch_error[OF Some] c by simp
    qed
  qed
qed

text \<open>
  What the code does with an error of \<open>GetRequest\<close> that is not an
  \<open>InvalidResponseError\<close>: if it is a \<open>url.Error\<close> that reports a timeout, \<open>processWatch\<close>
  returns no error, no mail is handed to the mailer and the store is not changed; any
  other such error is returned as it is, \<open>run\<close> hands one error mail with it to the
  mailer, and the store is not changed. The test for the timeout comes before the
  default case.
\<close>

theorem processWatch_transport_error:
  assumes "GetRequest (httpClient a) (wire out) (URL w) = ((statusCode, hdr, dur, body, Some e), evs)"
    and "As_InvalidResponseError e = None"
  shows "(As_UrlError e = Some True \<longrightarrow>
            fst (processWatch out a w s) = None \<and>
            mails (snd (processWatch out a w s)) = mails s \<and>
            db (snd (processWatch out a w s)) = db s \<and>
            mails (run_watch out a w s) = mails s \<and>
            db (run_watch out a w s) = db s) \<and>
         (As_UrlError e \<noteq> Some True \<longrightarrow>
            fst (processWatch out a w s) = Some e \<and>
            mails (snd (processWatch out a w s)) = mails s \<and>
            db (snd (processWatch out a w s)) = db s \<and>
            mails (run_watch out a w s) = mails s @ [ErrorEmail w e] \<and>
            db (run_watch out a w s) = db s)"
proof -
  obtain s1 where s1: "processWatch out a w s = on_fetch_error out a w dur e s1"
      "db s1 = db s" "mails s1 = mails s"
    using processWatch_fetch_error[OF assms(1), of s] by auto
  have pw: "processWatch out a w s = (if As_UrlError e = Some True then None else Some e, s1)"
    using s1(1) on_fetch_error_transport[OF assms(2), of out a w dur s1] by simp
  show ?thesis
  proof (intro conjI impI)
    assume t: "As_UrlError e = Some True"
    then have c: "fst (processWatch out a w s) = None" using pw by simp
    show "fst (processWatch out a w s) = None" by (rule c)
    show "mails (snd (processWatch out a w s)) = mails s" using pw s1 by simp
    show "db (snd (processWatch out a w s)) = db s" using pw s1 by simp
    show "mails (run_watch out a w s) = mails s" using run_watch_ok[OF c] pw s1 by simp
    show "db (run_watch out a w s) = db s" using run_watch_ok[OF c] pw s1 by simp
  next
    assume t: "As_UrlError e \<noteq> Some True"
    then have c: "fst (processWatch out a w s) = Some e" using pw by simp
    show "fst (processWatch out a w s) = Some e" by (rule c)
    show "mails (snd (processWatch out a w s)) = mails s" using pw s1 by simp
    show "db (snd (processWatch out a w s)) = db s" using pw s1 by simp
    show "mails (run_watch out a w s) = mails s @ [ErrorEmail w e]" using run_watch_error[OF c] pw s1 by simp
    show "db (run_watch out a w s) = db s" using run_watch_error[OF c] pw s1 by simp
  qed
qed

text \<open>
  C10. When the configured number of retries is 0 or negative, \<open>GetRequest\<close> makes no
  attempt (its trace is empty) and returns status 0, nil headers, duration 0, a nil body
  and no error; \<open>processWatch\<close> then goes on as after a successful fetch with these
  values, so that the nil body is extracted from, replaced in, compared with the snapshot
  and stored like a fetched body.
\<close>

theorem GetRequest_without_retries:
  assumes "Retries cfg \<le> 0"
  shows "GetRequest (httpClient (new_app cfg test)) n url = ((0, None, 0, None, None), []) \<and>
         processWatch out (new_app cfg test) w s =
           on_fetch_success out (new_app cfg test) w (GetDatabaseEntry (db s) (URL w)) 0 0 None
             (emit [Log Info ''processing %s: %s'' [ArgStr (Name w), ArgStr (URL w)]] s) \<and>
         (Pattern w = [] \<and> Replaces w = [] \<longrightarrow>
            processWatch out (new_app cfg test) w s =
              compare_and_store out (new_app cfg test) w (GetDatabaseEntry (db s) (URL w)) 0 0 None
                (emit [Log Info ''processing %s: %s'' [ArgStr (Name w), ArgStr (URL w)]] s))"
proof -
  have r: "retries (httpClient (new_app cfg test)) \<le> 0"
    using assms by (simp add: new_app_def NewHTTPClient_def)
  have g: "\<And>n url. GetRequest (httpClient (new_app cfg test)) n url = ((0, None, 0, None, None), [])"
    using GetRequest_zero[OF r] by simp
  have p: "processWatch out (new_app cfg test) w s =
           on_fetch_success out (new_app cfg test) w (GetDatabaseEntry (db s) (URL w)) 0 0 None
             (emit [Log Info ''processing %s: %s'' [ArgStr (Name w), ArgStr (URL w)]] s)"
    by (simp add: processWatch_def g Let_def emit_def)
  show ?thesis using g p
    by (simp add: on_fetch_success_def extract_content_def emit_def)
qed

section \<open>Properties of the transformation\<close>

lemma replacements_in_order:
  "\<forall>r \<in> set rs. \<not> isl (Compile out (ReplacePattern r)) \<Longrightarrow>
   replacements out rs body = Inr (foldl (substitution out) body rs)"
proof (induction rs arbitrary: body)
  case Nil
  then show ?case by simp
next
  case (Cons r rs)
  then obtain re where re: "Compile out (ReplacePattern r) = Inr re"
    by (cases "Compile out (ReplacePattern r)") auto
  show ?case using Cons re by (simp add: substitution_def)
qed

lemma replacements_invalid:
  "\<exists>r \<in> set rs. isl (Compile out (ReplacePattern r)) \<Longrightarrow>
   \<exists>p err. replacements out rs body =
     Inl (Errorf_w ''could not compile replace pattern %s: %w'' [ArgStr p] err)"
proof (induction rs arbitrary: body)
  case Nil
  then show ?case by simp
next
  case (Cons r rs)
  show ?case
  proof (cases "Compile out (ReplacePattern r)")
    case (Inl err)
    then show ?thesis by auto
  next
    case (Inr re)
    then have "\<exists>r \<in> set rs. isl (Compile out (ReplacePattern r))" using Cons.prems by auto
    from Cons.IH[OF this] show ?thesis using Inr by simp
  qed
qed

lemma transform_replacements:
  "extract_content out w body = Inr extracted \<Longrightarrow>
   transform out w body = replacements out (Replaces w) extracted"
  by (simp add: transform_def replace_loop_fst)

text \<open>
  C8, as amended. After a successful fetch: without an extraction pattern the body is
  kept; with one, a pattern that does not compile and a match with fewer than two
  elements (no match, or no capture group) are errors, and otherwise the body becomes the
  first capture group of the match. The replacement pairs are then applied in their
  declared order, each by \<open>ReplaceAll\<close> of the regexp package, which substitutes every
  match of the pattern by the replacement expanded as a template (\<open>$1\<close>, \<open>${name}\<close>, \<open>$$\<close>);
  a replacement pattern that does not compile is an error. Each of these errors is
  returned by \<open>processWatch\<close> whatever the ignore lists hold, \<open>run\<close> hands one error mail
  with it to the mailer, and the store is not changed. Otherwise the transformed body is
  what is compared with the snapshot and stored.
\<close>

theorem processWatch_transformation:
  assumes "GetRequest (httpClient a) (wire out) (URL w) = ((statusCode, hdr, dur, body, None), evs)"
  shows
  "(Pattern w = [] \<longrightarrow> extract_content out w body = Inr body) \<and>
   (\<forall>err. Pattern w \<noteq> [] \<and> Compile out (Pattern w) = Inl err \<longrightarrow>
      transform out w body =
        Inl (Errorf_w ''could not compile pattern %s: %w'' [ArgStr (Pattern w)] err)) \<and>
   (\<forall>re. Pattern w \<noteq> [] \<and> Compile out (Pattern w) = Inr re \<and>
      length (FindSubmatch out re body) < 2 \<longrightarrow>
      transform out w body =
        Inl (Errorf ''pattern %s did not match %s'' [ArgStr (Pattern w), ArgBytes body])) \<and>
   (\<forall>re. Pattern w \<noteq> [] \<and> Compile out (Pattern w) = Inr re \<and>
      2 \<le> length (FindSubmatch out re body) \<longrightarrow>
      extract_content out w body = Inr (FindSubmatch out re body ! 1)) \<and>
   (\<forall>extracted. extract_content out w body = Inr extracted \<and>
      (\<exists>r \<in> set (Replaces w). isl (Compile out (ReplacePattern r))) \<longrightarrow>
      (\<exists>p err. transform out w body =
         Inl (Errorf_w ''could not compile replace pattern %s: %w'' [ArgStr p] err))) \<and>
   (\<forall>extracted. extract_content out w body = Inr extracted \<and>
      (\<forall>r \<in> set (Replaces w). \<not> isl (Compile out (ReplacePattern r))) \<longrightarrow>
      transform out w body = Inr (foldl (substitution out) extracted (Replaces w))) \<and>
   (\<forall>e. transform out w body = Inl e \<longrightarrow>
      fst (processWatch out a w s) = Some e \<and>
      db (snd (processWatch out a w s)) = db s \<and>
      mails (snd (processWatch out a w s)) = mails s \<and>
      db (run_watch out a w s) = db s \<and>
      mails (run_watch out a w s) = mails s @ [ErrorEmail w e]) \<and>
   (\<forall>new. transform out w body = Inr new \<longrightarrow>
      (\<exists>s1. processWatch out a w s =
               compare_and_store out a w (GetDatabaseEntry (db s) (URL w)) statusCode dur new s1 \<and>
            db s1 = db s \<and> mails s1 = mails s))"
proof (intro conjI allI impI)
  show "extract_content out w body = Inr body" if "Pattern w = []"
    using that by (simp add: extract_content_def)
next
  fix err
  assume "Pattern w \<noteq> [] \<and> Compile out (Pattern w) = Inl err"
  then show "transform out w body =
        Inl (Errorf_w ''could not compile pattern %s: %w'' [ArgStr (Pattern w)] err)"
    by (simp add: transform_def extract_content_def)
next
  fix re
  assume "Pattern w \<noteq> [] \<and> Compile out (Pattern w) = Inr re \<and> length (FindSubmatch out re body) < 2"
  then show "transform out w body =
        Inl (Errorf ''pattern %s did not match %s'' [ArgStr (Pattern w), ArgBytes body])"
    by (simp add: transform_def extract_content_def)
next
  fix re
  assume "Pattern w \<noteq> [] \<and> Compile out (Pattern w) = Inr re \<and> 2 \<le> length (FindSubmatch out re body)"
  then show "extract_content out w body = Inr (FindSubmatch out re body ! 1)"
    by (simp add: extract_content_def)
next
  fix extracted
  assume "extract_content out w body = Inr extracted \<and>
      (\<exists>r \<in> set (Replaces w). isl (Compile out (ReplacePattern r)))"
  then show "\<exists>p err. transform out w body =
         Inl (Errorf_w ''could not compile replace pattern %s: %w'' [ArgStr p] err)"
    using replacements_invalid[of "Replaces w" out extracted] by (simp add: transform_replacements)
next
  fix extracted
  assume "extract_content out w body = Inr extracted \<and>
      (\<forall>r \<in> set (Replaces w). \<not> isl (Compile out (ReplacePattern r)))"
  then show "transform out w body = Inr (foldl (substitution out) extracted (Replaces w))"
    using replacements_in_order[of "Replaces w" out extracted] by (simp add: transform_replacements)
next
  fix e
  assume t: "transform out w body = Inl e"
  note p = processWatch_transform_error[OF assms t, of s]
  then have f: "fst (processWatch out a w s) = Some e" by simp
  show "fst (processWatch out a w s) = Some e" by (rule f)
  show "db (snd (processWatch out a w s)) = db s" using p by simp
  show "mails (snd (processWatch out a w s)) = mails s" using p by simp
  show "db (run_watch out a w s) = db s" using run_watch_error[OF f] p by simp
  show "mails (run_watch out a w s) = mails s @ [ErrorEmail w e]" using run_watch_error[OF f] p by simp
next
  fix new
  assume "transform out w body = Inr new"
  then show "\<exists>s1. processWatch out a w s =
               compare_and_store out a w (GetDatabaseEntry (db s) (URL w)) statusCode dur new s1 \<and>
            db s1 = db s \<and> mails s1 = mails s"
    by (rule processWatch_transformed[OF assms])
qed

section \<open>Concrete runs\<close>

lemma GetRequest_one_try:
  assumes "retries c = 1"
  shows "GetRequest c n url =
           (case fetchURL (net n url 1) url of
              (statusCode, hdr, dur, body, err) \<Rightarrow>
                (case err of
                   Some e \<Rightarrow> (-1, None, -1, None, Some e)
                 | None \<Rightarrow> (statusCode, hdr, dur, body, None)),
            [Log Debug ''try #%d for %s'' [ArgInt 1, ArgStr url], Fetch url 1])"
proof -
  have "GetRequest_loop c n url 1 (0, None, 0, None, None) [] =
          (Inr (fetchURL (net n url 1) url),
           [] @ [Log Debug ''try #%d for %s'' [ArgInt 1, ArgStr url], Fetch url 1])"
    using assms by (intro loop_break) simp_all
  then show ?thesis
    by (simp add: GetRequest_def split: prod.splits option.splits)
qed

lemmas example_defs =
  example_config_def example_watch_def snapshot_def working_outside_def serving_def
  failing_with_def new_app_def NewHTTPClient_def

lemmas fetch_defs = fetchURL_def isSoftError_def len_def bytes_of_def bytes_Contains_def

lemma example_fetch:
  "GetRequest (httpClient (new_app example_config test)) (serving 200 ''v2'') ''https://example.org'' =
     ((200, None, 7, Some ''v2'', None),
      [Log Debug ''try #%d for %s'' [ArgInt 1, ArgStr ''https://example.org''], Fetch ''https://example.org'' 1])"
  by (simp add: GetRequest_one_try example_defs fetch_defs)

lemma example_fetch_status:
  "status \<noteq> 200 \<Longrightarrow>
   GetRequest (httpClient (new_app example_config test)) (serving status body) ''https://example.org'' =
     ((-1, None, -1, None, Some (InvalidResponseError status None (Some body))),
      [Log Debug ''try #%d for %s'' [ArgInt 1, ArgStr ''https://example.org''], Fetch ''https://example.org'' 1])"
  by (simp add: GetRequest_one_try example_defs fetch_defs)

lemma example_fetch_fails:
  "GetRequest (httpClient (new_app example_config test)) (failing_with e) ''https://example.org'' =
     ((-1, None, -1, None, Some (Errorf_w ''could not get %s: %w'' [ArgStr ''https://example.org''] e)),
      [Log Debug ''try #%d for %s'' [ArgInt 1, ArgStr ''https://example.org''], Fetch ''https://example.org'' 1])"
  by (simp add: GetRequest_one_try example_defs fetch_defs)

lemma example_transform:
  "transform (working_outside n) example_watch body = Inr body"
  "transform (refusing_mailer n) example_watch body = Inr body"
  by (simp_all add: transform_def extract_content_def example_defs refusing_mailer_def)

lemma Get_Set [simp]:
  "GetDatabaseEntry (SetDatabaseEntry d key content) key' =
     (if key' = key then content else GetDatabaseEntry d key')"
  by (simp add: GetDatabaseEntry_def SetDatabaseEntry_def)

lemma example_simps [simp]:
  "URL example_watch = ''https://example.org''"
  "Name example_watch = ''A''"
  "mails (snapshot content) = []"
  "GetDatabaseEntry (db (snapshot content)) ''https://example.org'' = content"
  "wire (working_outside n) = n"
  "wire (refusing_mailer n) = n"
  "testMode (new_app cfg test) = test"
  by (simp_all add: example_watch_def mails_def snapshot_def GetDatabaseEntry_def
      working_outside_def refusing_mailer_def new_app_def)

text \<open>A first run on a watch: the store has no entry for it.\<close>

theorem processWatch_new_resource_witness:
  "GetDatabaseEntry (db (snapshot None)) ''https://example.org'' = None \<and>
   fst (processWatch (working_outside (serving 200 ''v2'')) (new_app example_config False)
          example_watch (snapshot None)) = None \<and>
   GetDatabaseEntry
     (db (snd (processWatch (working_outside (serving 200 ''v2'')) (new_app example_config False)
                 example_watch (snapshot None)))) ''https://example.org'' = Some ''v2'' \<and>
   mails (snd (processWatch (working_outside (serving 200 ''v2'')) (new_app example_config False)
                 example_watch (snapshot None))) = [] \<and>
   mails (run_watch (working_outside (serving 200 ''v2'')) (new_app example_config False)
            example_watch (snapshot None)) = []"
proof -
  have f: "GetRequest (httpClient (new_app example_config False))
             (wire (working_outside (serving 200 ''v2''))) (URL example_watch) =
           ((200, None, 7, Some ''v2'', None),
            [Log Debug ''try #%d for %s'' [ArgInt 1, ArgStr ''https://example.org''],
             Fetch ''https://example.org'' 1])"
    using example_fetch[of False] by simp
  have t: "transform (working_outside (serving 200 ''v2'')) example_watch (Some ''v2'') = Inr (Some ''v2'')"
    by (rule example_transform)
  have g: "GetDatabaseEntry (db (snapshot None)) (URL example_watch) = None"
    by simp
  show ?thesis
    using processWatch_new_resource[OF f t g] by simp
qed


text \<open>A run that finds the snapshot unchanged.\<close>

theorem processWatch_unchanged_witness:
  "bytes_Equal (Some ''v2'') (Some ''v2'') \<and>
   fst (processWatch (working_outside (serving 200 ''v2'')) (new_app example_config False)
          example_watch (snapshot (Some ''v2''))) = None \<and>
   mails (snd (processWatch (working_outside (serving 200 ''v2'')) (new_app example_config False)
                 example_watch (snapshot (Some ''v2'')))) = [] \<and>
   GetDatabaseEntry
     (db (snd (processWatch (working_outside (serving 200 ''v2'')) (new_app example_config False)
                 example_watch (snapshot (Some ''v2''))))) ''https://example.org'' = Some ''v2''"
proof -
  have f: "GetRequest (httpClient (new_app example_config False))
             (wire (working_outside (serving 200 ''v2''))) (URL example_watch) =
           ((200, None, 7, Some ''v2'', None),
            [Log Debug ''try #%d for %s'' [ArgInt 1, ArgStr ''https://example.org''],
             Fetch ''https://example.org'' 1])"
    using example_fetch[of False] by simp
  have t: "transform (working_outside (serving 200 ''v2'')) example_watch (Some ''v2'') = Inr (Some ''v2'')"
    by (rule example_transform)
  have g: "GetDatabaseEntry (db (snapshot (Some ''v2''))) (URL example_watch) = Some ''v2''"
    by simp
  have e: "bytes_Equal (Some ''v2'') (Some ''v2'')"
    by (simp add: bytes_Equal_def)
  show ?thesis
    using processWatch_unchanged[OF f t g e] e by simp
qed

text \<open>Two runs in succession on unchanged content.\<close>

theorem processWatch_twice_witness:
  "fst (processWatch (working_outside (serving 200 ''v2'')) (new_app example_config False)
          example_watch (snapshot (Some ''v2''))) = None \<and>
   fst (processWatch (working_outside (serving 200 ''v2'')) (new_app example_config False)
          example_watch
          (snd (processWatch (working_outside (serving 200 ''v2'')) (new_app example_config False)
                  example_watch (snapshot (Some ''v2''))))) = None \<and>
   mails (snd (processWatch (working_outside (serving 200 ''v2'')) (new_app example_config False)
          example_watch
          (snd (processWatch (working_outside (serving 200 ''v2'')) (new_app example_config False)
                  example_watch (snapshot (Some ''v2'')))))) = [] \<and>
   GetDatabaseEntry
     (db (snd (processWatch (working_outside (serving 200 ''v2'')) (new_app example_config False)
          example_watch
          (snd (processWatch (working_outside (serving 200 ''v2'')) (new_app example_config False)
                  example_watch (snapshot (Some ''v2''))))))) ''https://example.org'' = Some ''v2''"
proof -
  have f: "GetRequest (httpClient (new_app example_config False))
             (wire (working_outside (serving 200 ''v2''))) (URL example_watch) =
           ((200, None, 7, Some ''v2'', None),
            [Log Debug ''try #%d for %s'' [ArgInt 1, ArgStr ''https://example.org''],
             Fetch ''https://example.org'' 1])"
    using example_fetch[of False] by simp
  have t: "transform (working_outside (serving 200 ''v2'')) example_watch (Some ''v2'') = Inr (Some ''v2'')"
    by (rule example_transform)
  have g: "GetDatabaseEntry (db (snapshot (Some ''v2''))) (URL example_watch) = Some ''v2''"
    by simp
  have e: "bytes_Equal (Some ''v2'') (Some ''v2'')"
    by (simp add: bytes_Equal_def)
  show ?thesis
    using processWatch_twice[OF f t g e] by simp
qed

text \<open>
  A changed page in test mode, with a mailer that accepts the mail and with one that
  refuses it.
\<close>

theorem processWatch_changed_witness:
  "\<not> bytes_Equal (Some ''v1'') (Some ''v2'') \<and>
   fst (processWatch (working_outside (serving 200 ''v2'')) (new_app example_config True)
          example_watch (snapshot (Some ''v1''))) = None \<and>
   mails (snd (processWatch (working_outside (serving 200 ''v2'')) (new_app example_config True)
          example_watch (snapshot (Some ''v1'')))) = [] \<and>
   GetDatabaseEntry
     (db (snd (processWatch (working_outside (serving 200 ''v2'')) (new_app example_config True)
                 example_watch (snapshot (Some ''v1''))))) ''https://example.org'' = Some ''v2'' \<and>
   fst (processWatch (working_outside (serving 200 ''v2'')) (new_app example_config False)
          example_watch (snapshot (Some ''v1''))) = None \<and>
   length (mails (snd (processWatch (working_outside (serving 200 ''v2'')) (new_app example_config False)
          example_watch (snapshot (Some ''v1''))))) = 1 \<and>
   GetDatabaseEntry
     (db (snd (processWatch (working_outside (serving 200 ''v2'')) (new_app example_config False)
                 example_watch (snapshot (Some ''v1''))))) ''https://example.org'' = Some ''v2'' \<and>
   fst (processWatch (refusing_mailer (serving 200 ''v2'')) (new_app example_config False)
          example_watch (snapshot (Some ''v1''))) =
     Some (Errorf_w ''error on sending email: %w'' [] (Foreign ''smtp: connection refused'')) \<and>
   length (mails (snd (processWatch (refusing_mailer (serving 200 ''v2'')) (new_app example_config False)
          example_watch (snapshot (Some ''v1''))))) = 1 \<and>
   GetDatabaseEntry
     (db (snd (processWatch (refusing_mailer (serving 200 ''v2'')) (new_app example_config False)
                 example_watch (snapshot (Some ''v1''))))) ''https://example.org'' = Some ''v1''"
proof -
  have f: "\<And>test. GetRequest (httpClient (new_app example_config test))
             (wire (working_outside (serving 200 ''v2''))) (URL example_watch) =
           ((200, None, 7, Some ''v2'', None),
            [Log Debug ''try #%d for %s'' [ArgInt 1, ArgStr ''https://example.org''],
             Fetch ''https://example.org'' 1])"
    using example_fetch by simp
  have f': "GetRequest (httpClient (new_app example_config False))
             (wire (refusing_mailer (serving 200 ''v2''))) (URL example_watch) =
           ((200, None, 7, Some ''v2'', None),
            [Log Debug ''try #%d for %s'' [ArgInt 1, ArgStr ''https://example.org''],
             Fetch ''https://example.org'' 1])"
    using example_fetch[of False] by simp
  have t: "transform (working_outside (serving 200 ''v2'')) example_watch (Some ''v2'') = Inr (Some ''v2'')"
    and t': "transform (refusing_mailer (serving 200 ''v2'')) example_watch (Some ''v2'') = Inr (Some ''v2'')"
    by (rule example_transform)+
  have g: "GetDatabaseEntry (db (snapshot (Some ''v1''))) (URL example_watch) = Some ''v1''"
    by simp
  have ne: "\<not> bytes_Equal (Some ''v1'') (Some ''v2'')"
    by (simp add: bytes_Equal_def bytes_of_def)
  have d: "\<And>n x y. DiffAPI (working_outside n) x y = Inr (''css'', ''diff'')"
      "\<And>n x y. DiffAPI (refusing_mailer n) x y = Inr (''css'', ''diff'')"
      "\<And>n w x y. SendHTMLEmail (working_outside n) w x y = None"
      "\<And>n w x y. SendHTMLEmail (refusing_mailer n) w x y = Some (Foreign ''smtp: connection refused'')"
    by (simp_all add: working_outside_def refusing_mailer_def)
  show ?thesis
    using processWatch_changed[OF f[of True] t g ne]
      processWatch_changed[OF f[of False] t g ne]
      processWatch_changed[OF f' t' g ne] ne
    by (auto simp: d)
qed

text \<open>
  C1 as stated fails when the mailer refuses the change mail: the snapshot is \<open>v1\<close>, the
  page is \<open>v2\<close>, \<open>processWatch\<close> returns the error of the mailer and the store still holds
  \<open>v1\<close>.
\<close>

theorem store_not_updated_counterexample:
  "fst (processWatch (refusing_mailer (serving 200 ''v2'')) (new_app example_config False)
          example_watch (snapshot (Some ''v1''))) =
     Some (Errorf_w ''error on sending email: %w'' [] (Foreign ''smtp: connection refused'')) \<and>
   GetDatabaseEntry
     (db (snd (processWatch (refusing_mailer (serving 200 ''v2'')) (new_app example_config False)
                 example_watch (snapshot (Some ''v1''))))) ''https://example.org'' = Some ''v1''"
proof -
  have f: "GetRequest (httpClient (new_app example_config False))
             (wire (refusing_mailer (serving 200 ''v2''))) (URL example_watch) =
           ((200, None, 7, Some ''v2'', None),
            [Log Debug ''try #%d for %s'' [ArgInt 1, ArgStr ''https://example.org''],
             Fetch ''https://example.org'' 1])"
    using example_fetch[of False] by simp
  obtain s1 where s1: "processWatch (refusing_mailer (serving 200 ''v2'')) (new_app example_config False)
          example_watch (snapshot (Some ''v1'')) =
        compare_and_store (refusing_mailer (serving 200 ''v2'')) (new_app example_config False)
          example_watch (Some ''v1'') 200 7 (Some ''v2'') s1" "db s1 = db (snapshot (Some ''v1''))"
    using processWatch_transformed[OF f example_transform(2), of "snapshot (Some ''v1'')"] by auto
  have "fst (compare_and_store (refusing_mailer (serving 200 ''v2'')) (new_app example_config False)
          example_watch (Some ''v1'') 200 7 (Some ''v2'') s1) =
        Some (Errorf_w ''error on sending email: %w'' [] (Foreign ''smtp: connection refused'')) \<and>
      db (snd (compare_and_store (refusing_mailer (serving 200 ''v2'')) (new_app example_config False)
          example_watch (Some ''v1'') 200 7 (Some ''v2'') s1)) = db s1"
    by (simp add: compare_and_store_def generateHTMLContentForEmail_def bytes_Equal_def bytes_of_def
        refusing_mailer_def working_outside_def Let_def)
  then show ?thesis using s1 by simp
qed

lemma ignore_lists [simp]:
  "HTTPErrorsToIgnore (config (new_app example_config test)) = [404]"
  "AdditionalHTTPErrorsToIgnore example_watch = [503]"
  by (simp_all add: new_app_def example_config_def example_watch_def)

text \<open>
  Hard errors: status 404 is in the global ignore list, 503 in the watch's own, 500 in
  neither.
\<close>

theorem processWatch_hard_error_witness:
  "mails (run_watch (working_outside (serving 404 ''Not Found'')) (new_app example_config False)
            example_watch (snapshot (Some ''v1''))) = [] \<and>
   GetDatabaseEntry
     (db (run_watch (working_outside (serving 404 ''Not Found'')) (new_app example_config False)
            example_watch (snapshot (Some ''v1'')))) ''https://example.org'' = Some ''v1'' \<and>
   mails (run_watch (working_outside (serving 503 ''Unavailable'')) (new_app example_config False)
            example_watch (snapshot (Some ''v1''))) = [] \<and>
   GetDatabaseEntry
     (db (run_watch (working_outside (serving 503 ''Unavailable'')) (new_app example_config False)
            example_watch (snapshot (Some ''v1'')))) ''https://example.org'' = Some ''v1'' \<and>
   length (mails (snd (processWatch (working_outside (serving 500 ''Oops'')) (new_app example_config False)
            example_watch (snapshot (Some ''v1''))))) = 1 \<and>
   GetDatabaseEntry
     (db (run_watch (working_outside (serving 500 ''Oops'')) (new_app example_config False)
            example_watch (snapshot (Some ''v1'')))) ''https://example.org'' = Some ''v1''"
proof -
  have f: "\<And>status body. status \<noteq> 200 \<Longrightarrow>
           GetRequest (httpClient (new_app example_config False))
             (wire (working_outside (serving status body))) (URL example_watch) =
           ((-1, None, -1, None, Some (InvalidResponseError status None (Some body))),
            [Log Debug ''try #%d for %s'' [ArgInt 1, ArgStr ''https://example.org''],
             Fetch ''https://example.org'' 1])"
    using example_fetch_status by simp
  have a: "\<And>status body. As_InvalidResponseError (InvalidResponseError status None (Some body)) =
             Some (status, None, Some body)"
    by simp
  show ?thesis
    using processWatch_hard_error[OF f a, of 404 "''Not Found''" "snapshot (Some ''v1'')"]
      processWatch_hard_error[OF f a, of 503 "''Unavailable''" "snapshot (Some ''v1'')"]
      processWatch_hard_error[OF f a, of 500 "''Oops''" "snapshot (Some ''v1'')"]
    by auto
qed

text \<open>A round trip that times out, and one that fails otherwise.\<close>

theorem processWatch_transport_error_witness:
  "fst (processWatch (working_outside (failing_with (UrlError ''Get'' True))) (new_app example_config False)
          example_watch (snapshot (Some ''v1''))) = None \<and>
   mails (run_watch (working_outside (failing_with (UrlError ''Get'' True))) (new_app example_config False)
            example_watch (snapshot (Some ''v1''))) = [] \<and>
   GetDatabaseEntry
     (db (run_watch (working_outside (failing_with (UrlError ''Get'' True))) (new_app example_config False)
            example_watch (snapshot (Some ''v1'')))) ''https://example.org'' = Some ''v1'' \<and>
   fst (processWatch (working_outside (failing_with (UrlError ''Get'' False))) (new_app example_config False)
          example_watch (snapshot (Some ''v1''))) =
     Some (Errorf_w ''could not get %s: %w'' [ArgStr ''https://example.org''] (UrlError ''Get'' False)) \<and>
   mails (run_watch (working_outside (failing_with (UrlError ''Get'' False))) (new_app example_config False)
            example_watch (snapshot (Some ''v1''))) =
     [ErrorEmail example_watch
        (Errorf_w ''could not get %s: %w'' [ArgStr ''https://example.org''] (UrlError ''Get'' False))] \<and>
   GetDatabaseEntry
     (db (run_watch (working_outside (failing_with (UrlError ''Get'' False))) (new_app example_config False)
            example_watch (snapshot (Some ''v1'')))) ''https://example.org'' = Some ''v1''"
proof -
  have f: "\<And>e. GetRequest (httpClient (new_app example_config False))
             (wire (working_outside (failing_with e))) (URL example_watch) =
           ((-1, None, -1, None, Some (Errorf_w ''could not get %s: %w'' [ArgStr ''https://example.org''] e)),
            [Log Debug ''try #%d for %s'' [ArgInt 1, ArgStr ''https://example.org''],
             Fetch ''https://example.org'' 1])"
    using example_fetch_fails by simp
  have a: "\<And>t. As_InvalidResponseError
             (Errorf_w ''could not get %s: %w'' [ArgStr ''https://example.org''] (UrlError ''Get'' t)) = None"
    by simp
  show ?thesis
    using processWatch_transport_error[OF f a, of True "snapshot (Some ''v1'')"]
      processWatch_transport_error[OF f a, of False "snapshot (Some ''v1'')"]
    by simp
qed

text \<open>
  C7. The code against the claim, on a timeout that is not a \<open>*url.Error\<close>: the timeout of
  the client runs on while the body of the response is read, and when it expires there
  \<open>io.ReadAll\<close> ends with an error that reports a timeout and is no \<open>*url.Error\<close>.
  \<open>fetchURL\<close> wraps it (lines 69 to 72), the test of line 188 of \<open>main.go\<close> does not
  recognise it, \<open>processWatch\<close> returns it and \<open>run\<close> hands an error mail with it to the
  mailer, where the claim, and the comment of line 189 ("ignore timeout errors so outer
  mail will not send emails on them"), have no mail for a timeout. The store is not
  changed.
\<close>

theorem body_read_timeout_is_mailed:
  "timed_out
     (Errorf_w ''could not read body from %s: %w'' [ArgStr ''https://example.org'']
        (NetError ''context deadline exceeded (Client.Timeout or context cancellation while reading body)''
           True)) \<and>
   fst (processWatch
          (working_outside (body_read_fails
             (NetError ''context deadline exceeded (Client.Timeout or context cancellation while reading body)''
                True)))
          (new_app example_config False) example_watch (snapshot (Some ''v1''))) =
     Some (Errorf_w ''could not read body from %s: %w'' [ArgStr ''https://example.org'']
             (NetError ''context deadline exceeded (Client.Timeout or context cancellation while reading body)''
                True)) \<and>
   mails (run_watch
            (working_outside (body_read_fails
               (NetError ''context deadline exceeded (Client.Timeout or context cancellation while reading body)''
                  True)))
            (new_app example_config False) example_watch (snapshot (Some ''v1''))) =
     [ErrorEmail example_watch
        (Errorf_w ''could not read body from %s: %w'' [ArgStr ''https://example.org'']
           (NetError ''context deadline exceeded (Client.Timeout or context cancellation while reading body)''
              True))] \<and>
   GetDatabaseEntry
     (db (run_watch
            (working_outside (body_read_fails
               (NetError ''context deadline exceeded (Client.Timeout or context cancellation while reading body)''
                  True)))
            (new_app example_config False) example_watch (snapshot (Some ''v1''))))
     ''https://example.org'' = Some ''v1''"
proof -
  let ?e = "NetError ''context deadline exceeded (Client.Timeout or context cancellation while reading body)'' True"
  let ?err = "Errorf_w ''could not read body from %s: %w'' [ArgStr ''https://example.org''] ?e"
  let ?out = "working_outside (body_read_fails ?e)"
  let ?app = "new_app example_config False"
  let ?s = "snapshot (Some ''v1'')"
  have f: "GetRequest (httpClient ?app) (wire ?out) (URL example_watch) =
           ((-1, None, -1, None, Some ?err),
            [Log Debug ''try #%d for %s'' [ArgInt 1, ArgStr ''https://example.org''],
             Fetch ''https://example.org'' 1])"
    by (simp add: GetRequest_one_try example_defs body_read_fails_def fetch_defs)
  obtain s1 where s1: "processWatch ?out ?app example_watch ?s =
      on_fetch_error ?out ?app example_watch (-1) ?err s1" "db s1 = db ?s" "mails s1 = mails ?s"
    using processWatch_fetch_error[OF f, of ?s] by auto
  have o: "on_fetch_error ?out ?app example_watch (-1) ?err s1 = (Some ?err, s1)"
    by (simp add: on_fetch_error_def)
  have p: "fst (processWatch ?out ?app example_watch ?s) = Some ?err"
    using s1(1) o by simp
  have m: "mails (run_watch ?out ?app example_watch ?s) = [ErrorEmail example_watch ?err]"
    using run_watch_error[OF p] s1 o by simp
  have d: "GetDatabaseEntry (db (run_watch ?out ?app example_watch ?s)) ''https://example.org'' = Some ''v1''"
    using run_watch_error[OF p] s1 o by simp
  have t: "timed_out ?err" by simp
  show ?thesis using t p m d by simp
qed

text \<open>
  No retries configured: no request is made, and the nil body is taken for a change of
  the page, mailed and stored.
\<close>

theorem GetRequest_without_retries_witness:
  "GetRequest (httpClient (new_app (example_config\<lparr>Retries := 0\<rparr>) False)) (serving 200 ''v2'')
     ''https://example.org'' = ((0, None, 0, None, None), []) \<and>
   fst (processWatch (working_outside (serving 200 ''v2'')) (new_app (example_config\<lparr>Retries := 0\<rparr>) False)
          example_watch (snapshot (Some ''v1''))) = None \<and>
   filter is_fetch
     (trace (snd (processWatch (working_outside (serving 200 ''v2''))
                    (new_app (example_config\<lparr>Retries := 0\<rparr>) False)
                    example_watch (snapshot (Some ''v1''))))) = [] \<and>
   length (mails (snd (processWatch (working_outside (serving 200 ''v2''))
                    (new_app (example_config\<lparr>Retries := 0\<rparr>) False)
                    example_watch (snapshot (Some ''v1''))))) = 1 \<and>
   GetDatabaseEntry
     (db (snd (processWatch (working_outside (serving 200 ''v2''))
                 (new_app (example_config\<lparr>Retries := 0\<rparr>) False)
                 example_watch (snapshot (Some ''v1''))))) ''https://example.org'' = None"
proof -
  have r: "Retries (example_config\<lparr>Retries := 0\<rparr>) \<le> 0" by simp
  have p: "Pattern example_watch = []" "Replaces example_watch = []"
    by (simp_all add: example_watch_def)
  let ?out = "working_outside (serving 200 ''v2'')"
  let ?app = "new_app (example_config\<lparr>Retries := 0\<rparr>) False"
  let ?s = "emit [Log Info ''processing %s: %s'' [ArgStr (Name example_watch), ArgStr (URL example_watch)]]
              (snapshot (Some ''v1''))"
  note th = GetRequest_without_retries[OF r, of False "serving 200 ''v2''" "''https://example.org''"
        ?out example_watch "snapshot (Some ''v1'')"]
  have pw: "processWatch ?out ?app example_watch (snapshot (Some ''v1'')) =
              compare_and_store ?out ?app example_watch (Some ''v1'') 0 0 None ?s"
    using conjunct2[OF conjunct2[OF th]] p by simp
  have cs: "fst (compare_and_store ?out ?app example_watch (Some ''v1'') 0 0 None ?s) = None \<and>
            filter is_fetch (trace (snd (compare_and_store ?out ?app example_watch (Some ''v1'') 0 0 None ?s))) = [] \<and>
            length (mails (snd (compare_and_store ?out ?app example_watch (Some ''v1'') 0 0 None ?s))) = 1 \<and>
            GetDatabaseEntry (db (snd (compare_and_store ?out ?app example_watch (Some ''v1'') 0 0 None ?s)))
              ''https://example.org'' = None"
    by (simp add: compare_and_store_def generateHTMLContentForEmail_def bytes_Equal_def bytes_of_def
        working_outside_def Let_def emit_def mails_def snapshot_def)
  show ?thesis
    using conjunct1[OF th] cs unfolding pw by simp
qed

lemma extracting_watch_simps [simp]:
  "URL (extracting_watch p rs) = ''https://example.org''"
  "Name (extracting_watch p rs) = ''A''"
  "Pattern (extracting_watch p rs) = p"
  "Replaces (extracting_watch p rs) = rs"
  by (simp_all add: extracting_watch_def example_watch_def)

lemma working_regexp [simp]:
  "Compile (working_outside n) = regexp_Compile"
  "FindSubmatch (working_outside n) = regexp_FindSubmatch"
  "ReplaceAll (working_outside n) = regexp_ReplaceAll"
  by (simp_all add: working_outside_def)

lemmas regexp_defs =
  regexp_Compile_def regexp_FindSubmatch_def regexp_ReplaceAll_def
  is_meta_def literal_byte_def flat_def template_var_def name_char_def is_digit_def number_def submatch_def
  nil_if_empty_def bytes_of_def Let_def

text \<open>
  C8 as stated fails on a replacement with a dollar sign: with the pair (\<open>b\<close>, \<open>$0$0\<close>)
  and the page \<open>abc\<close> the stored content is \<open>abbc\<close>, each match replaced by the
  expansion of the template, while the substitution of the literal replacement string
  (Go's \<open>ReplaceAllLiteral\<close>) gives \<open>a$0$0c\<close>.
\<close>

theorem replacement_template_counterexample:
  "GetDatabaseEntry
     (db (snd (processWatch (working_outside (serving 200 ''abc'')) (new_app example_config False)
                 (extracting_watch [] [\<lparr>ReplacePattern = ''b'', ReplaceWith = ''$0$0''\<rparr>])
                 (snapshot None)))) ''https://example.org'' = Some ''abbc'' \<and>
   substitute ''b'' ''$0$0'' ''abc'' = ''a$0$0c'' \<and>
   regexp_ReplaceAllLiteral [Chars ''b''] (Some ''abc'') ''$0$0'' = Some ''a$0$0c''"
proof -
  let ?w = "extracting_watch [] [\<lparr>ReplacePattern = ''b'', ReplaceWith = ''$0$0''\<rparr>]"
  have f: "GetRequest (httpClient (new_app example_config False))
             (wire (working_outside (serving 200 ''abc''))) (URL ?w) =
           ((200, None, 7, Some ''abc'', None),
            [Log Debug ''try #%d for %s'' [ArgInt 1, ArgStr ''https://example.org''],
             Fetch ''https://example.org'' 1])"
    by (simp add: GetRequest_one_try example_defs fetch_defs)
  have t: "transform (working_outside (serving 200 ''abc'')) ?w (Some ''abc'') = Inr (Some ''abbc'')"
    by (simp add: transform_def extract_content_def regexp_defs)
  obtain s1 where s1: "processWatch (working_outside (serving 200 ''abc'')) (new_app example_config False)
        ?w (snapshot None) =
      compare_and_store (working_outside (serving 200 ''abc'')) (new_app example_config False)
        ?w None 200 7 (Some ''abbc'') s1"
    using processWatch_transformed[OF f t, of "snapshot None"] by auto
  have "GetDatabaseEntry
     (db (snd (processWatch (working_outside (serving 200 ''abc'')) (new_app example_config False)
                 ?w (snapshot None)))) ''https://example.org'' = Some ''abbc''"
    unfolding s1 using compare_new[of None "working_outside (serving 200 ''abc'')"
        "new_app example_config False" ?w 200 7 "Some ''abbc''" s1] by simp
  moreover have "substitute ''b'' ''$0$0'' ''abc'' = ''a$0$0c''" by simp
  moreover have "regexp_ReplaceAllLiteral [Chars ''b''] (Some ''abc'') ''$0$0'' = Some ''a$0$0c''"
    by (simp add: regexp_ReplaceAllLiteral_def regexp_defs)
  ultimately show ?thesis by simp
qed

text \<open>
  An extraction followed by two replacements; a pattern that does not compile, with the
  status 200 of the response in the ignore list; a pattern without a capture group; a
  replacement pattern that does not compile.
\<close>

theorem processWatch_transformation_witness:
  "transform (working_outside (serving 200 ''v2''))
     (extracting_watch ''v(2)'' [\<lparr>ReplacePattern = ''2'', ReplaceWith = ''two''\<rparr>,
                                 \<lparr>ReplacePattern = ''o'', ReplaceWith = ''0''\<rparr>]) (Some ''v2'')
     = Inr (Some ''tw0'') \<and>
   GetDatabaseEntry
     (db (snd (processWatch (working_outside (serving 200 ''v2'')) (new_app example_config False)
        (extracting_watch ''v(2)'' [\<lparr>ReplacePattern = ''2'', ReplaceWith = ''two''\<rparr>,
                                    \<lparr>ReplacePattern = ''o'', ReplaceWith = ''0''\<rparr>])
        (snapshot None)))) ''https://example.org'' = Some ''tw0'' \<and>
   mails (run_watch (working_outside (serving 200 ''v2''))
            (new_app (example_config\<lparr>HTTPErrorsToIgnore := [200]\<rparr>) False)
            (extracting_watch ''('' []) (snapshot (Some ''v1''))) =
     [ErrorEmail (extracting_watch ''('' [])
        (Errorf_w ''could not compile pattern %s: %w'' [ArgStr ''(''] (Foreign ''error parsing regexp''))] \<and>
   GetDatabaseEntry
     (db (run_watch (working_outside (serving 200 ''v2''))
            (new_app (example_config\<lparr>HTTPErrorsToIgnore := [200]\<rparr>) False)
            (extracting_watch ''('' []) (snapshot (Some ''v1'')))) ''https://example.org'' = Some ''v1'' \<and>
   fst (processWatch (working_outside (serving 200 ''v2'')) (new_app example_config False)
          (extracting_watch ''v2'' []) (snapshot (Some ''v1''))) =
     Some (Errorf ''pattern %s did not match %s'' [ArgStr ''v2'', ArgBytes (Some ''v2'')]) \<and>
   GetDatabaseEntry
     (db (snd (processWatch (working_outside (serving 200 ''v2'')) (new_app example_config False)
          (extracting_watch ''v2'' []) (snapshot (Some ''v1''))))) ''https://example.org'' = Some ''v1'' \<and>
   isl (transform (working_outside (serving 200 ''v2''))
          (extracting_watch [] [\<lparr>ReplacePattern = ''('', ReplaceWith = ''x''\<rparr>]) (Some ''v2''))"
proof -
  let ?out = "working_outside (serving 200 ''v2'')"
  let ?w1 = "extracting_watch ''v(2)'' [\<lparr>ReplacePattern = ''2'', ReplaceWith = ''two''\<rparr>,
                                        \<lparr>ReplacePattern = ''o'', ReplaceWith = ''0''\<rparr>]"
  let ?w2 = "extracting_watch ''('' []"
  let ?w3 = "extracting_watch ''v2'' []"
  let ?w4 = "extracting_watch [] [\<lparr>ReplacePattern = ''('', ReplaceWith = ''x''\<rparr>]"
  let ?app = "new_app example_config False"
  let ?app200 = "new_app (example_config\<lparr>HTTPErrorsToIgnore := [200]\<rparr>) False"
  have f: "\<And>cfg p rs. Retries cfg = 1 \<Longrightarrow> GetRequest (httpClient (new_app cfg False)) (wire ?out)
             (URL (extracting_watch p rs)) =
           ((200, None, 7, Some ''v2'', None),
            [Log Debug ''try #%d for %s'' [ArgInt 1, ArgStr ''https://example.org''],
             Fetch ''https://example.org'' 1])"
    by (simp add: GetRequest_one_try new_app_def NewHTTPClient_def serving_def fetch_defs)
  have r: "Retries example_config = 1" "Retries (example_config\<lparr>HTTPErrorsToIgnore := [200]\<rparr>) = 1"
    by (simp_all add: example_config_def)
  note th1 = processWatch_transformation[OF f[OF r(1)], of "''v(2)''"
      "[\<lparr>ReplacePattern = ''2'', ReplaceWith = ''two''\<rparr>, \<lparr>ReplacePattern = ''o'', ReplaceWith = ''0''\<rparr>]"
      "snapshot None"]
  note th2 = processWatch_transformation[OF f[OF r(2)], of "''(''" "[]" "snapshot (Some ''v1'')"]
  note th3 = processWatch_transformation[OF f[OF r(1)], of "''v2''" "[]" "snapshot (Some ''v1'')"]
  note th4 = processWatch_transformation[OF f[OF r(1)], of "[]"
      "[\<lparr>ReplacePattern = ''('', ReplaceWith = ''x''\<rparr>]" "snapshot None"]
  have c1: "regexp_Compile ''v(2)'' = Inr [Chars ''v'', Group ''2'']"
       "regexp_Compile ''2'' = Inr [Chars ''2'']"
       "regexp_Compile ''o'' = Inr [Chars ''o'']"
       "regexp_Compile ''v2'' = Inr [Chars ''v'', Chars ''2'']"
       "regexp_Compile ''('' = Inl (Foreign ''error parsing regexp'')"
    by (simp_all add: regexp_defs)
  have e1: "extract_content ?out ?w1 (Some ''v2'') = Inr (Some ''2'')"
    using th1 by (simp add: c1 regexp_defs)
  have t1: "transform ?out ?w1 (Some ''v2'') = Inr (Some ''tw0'')"
    using th1 e1 by (simp add: c1 substitution_def regexp_defs)
  have s1: "GetDatabaseEntry (db (snd (processWatch ?out ?app ?w1 (snapshot None)))) ''https://example.org''
              = Some ''tw0''"
  proof -
    from th1 t1 obtain s1 where "processWatch ?out ?app ?w1 (snapshot None) =
        compare_and_store ?out ?app ?w1 None 200 7 (Some ''tw0'') s1"
      by auto
    then show ?thesis
      using compare_new[of None ?out ?app ?w1 200 7 "Some ''tw0''" s1] by simp
  qed
  have t2: "transform ?out ?w2 (Some ''v2'') =
              Inl (Errorf_w ''could not compile pattern %s: %w'' [ArgStr ''(''] (Foreign ''error parsing regexp''))"
    using th2 by (simp add: c1)
  have p2: "mails (run_watch ?out ?app200 ?w2 (snapshot (Some ''v1''))) =
              [ErrorEmail ?w2 (Errorf_w ''could not compile pattern %s: %w'' [ArgStr ''(''] (Foreign ''error parsing regexp''))]"
       "GetDatabaseEntry (db (run_watch ?out ?app200 ?w2 (snapshot (Some ''v1'')))) ''https://example.org'' = Some ''v1''"
    using th2 t2 by simp_all
  have t3: "transform ?out ?w3 (Some ''v2'') =
              Inl (Errorf ''pattern %s did not match %s'' [ArgStr ''v2'', ArgBytes (Some ''v2'')])"
    using th3 by (simp add: c1 regexp_defs)
  have p3: "fst (processWatch ?out ?app ?w3 (snapshot (Some ''v1''))) =
              Some (Errorf ''pattern %s did not match %s'' [ArgStr ''v2'', ArgBytes (Some ''v2'')])"
       "GetDatabaseEntry (db (snd (processWatch ?out ?app ?w3 (snapshot (Some ''v1''))))) ''https://example.org'' = Some ''v1''"
    using th3 t3 by simp_all
  have t4: "isl (transform ?out ?w4 (Some ''v2''))"
    using th4 by (auto simp: c1)
  show ?thesis
    using t1 s1 p2 p3 t4 by simp
qed

end
